theory Spec2Isabelle
  imports Complex_Main "HOL-Library.AList" "HOL-Library.Char_ord" "HOL-Library.List_Lexorder"
begin

section \<open>Python values\<close>

text \<open>
  The dashboard works on decoded JSON. A decoded JSON value is \<open>None\<close>, a \<open>bool\<close>, an
  \<open>int\<close>, a \<open>float\<close>, a \<open>str\<close>, a \<open>list\<close> or a \<open>dict\<close> with string keys. A dict is an
  association list in insertion order; storing under a key that is present replaces
  the value in place, storing under a new key appends (\<open>AList.update\<close>).

  A Python \<open>float\<close> is represented by the rational number it denotes: parsing,
  comparison and the control flow around the arithmetic are as in the program, the
  rounding error of binary floating point is not part of the model.
\<close>

datatype pyval =
    PNone
  | PBool bool
  | PInt int
  | PFloat rat
  | PStr string
  | PList "pyval list"
  | PDict "(string \<times> pyval) list"

datatype error =
    TypeError
  | ValueError
  | KeyError
  | IndexError
  | AttributeError
  | RequestError

type_synonym 'v dict = "(string \<times> 'v) list"

text \<open>\<open>obj[i]\<close> for a non-negative integer literal \<open>i\<close>.\<close>

fun py_getitem_int :: "pyval \<Rightarrow> nat \<Rightarrow> error + pyval" where
  "py_getitem_int (PList xs) i = (if i < length xs then Inr (xs ! i) else Inl IndexError)"
| "py_getitem_int (PStr s) i = (if i < length s then Inr (PStr [s ! i]) else Inl IndexError)"
| "py_getitem_int (PDict d) i = Inl KeyError"
| "py_getitem_int _ i = Inl TypeError"

text \<open>\<open>obj['key']\<close> for a string key.\<close>

fun py_getitem_str :: "pyval \<Rightarrow> string \<Rightarrow> error + pyval" where
  "py_getitem_str (PDict d) k = (case map_of d k of Some v \<Rightarrow> Inr v | None \<Rightarrow> Inl KeyError)"
| "py_getitem_str _ k = Inl TypeError"

section \<open>Time-of-day labels\<close>

text \<open>The decimal digit \<open>d\<close> (below ten) as a character.\<close>

definition digit_char :: "nat \<Rightarrow> char" where
  "digit_char d = ''0123456789'' ! d"

definition pad2 :: "nat \<Rightarrow> string" where
  "pad2 n = [digit_char (n div 10), digit_char (n mod 10)]"

text \<open>\<open>strftime("%H:%M")\<close> of the UTC date-time that lies \<open>t\<close> seconds after the epoch.\<close>

definition strftime_HM :: "int \<Rightarrow> string" where
  "strftime_HM t = pad2 (nat ((t mod 86400) div 3600)) @ '':'' @ pad2 (nat ((t mod 3600) div 60))"

definition round_half_even :: "rat \<Rightarrow> int" where
  "round_half_even x =
     (let f = \<lfloor>x\<rfloor>; r = x - of_int f
      in if r < 1 / 2 then f
         else if 1 / 2 < r then f + 1
         else if even f then f else f + 1)"

text \<open>
  \<open>datetime.datetime.utcfromtimestamp(ts)\<close>, as the whole second it falls in. A number
  is accepted (a \<open>bool\<close> is an \<open>int\<close>; a \<open>float\<close> is first rounded to the microsecond, half
  to even); the date must lie in the years 1 to 9999, otherwise the call raises
  (\<open>ValueError\<close> or \<open>OverflowError\<close>, both caught alike by the callers: \<open>ValueError\<close>
  stands for either). Anything that is not a number raises \<open>TypeError\<close>.
\<close>

definition in_datetime_range :: "int \<Rightarrow> bool" where
  "in_datetime_range t \<longleftrightarrow> - 62135596800 \<le> t \<and> t \<le> 253402300799"

fun utcfromtimestamp :: "pyval \<Rightarrow> error + int" where
  "utcfromtimestamp (PInt t) = (if in_datetime_range t then Inr t else Inl ValueError)"
| "utcfromtimestamp (PBool b) = Inr (if b then 1 else 0)"
| "utcfromtimestamp (PFloat q) =
     (let t = round_half_even (q * 1000000) div 1000000
      in if in_datetime_range t then Inr t else Inl ValueError)"
| "utcfromtimestamp _ = Inl TypeError"

section \<open>Normalising the SNORT CPU series\<close>

text \<open>
  The body of the \<open>try\<close> in \<open>convert_snort_metric_data\<close>: \<open>data[0]\<close> is converted to the
  label, then \<open>data[1]\<close> is read. \<open>Inl\<close> is the exception that the \<open>except\<close> catches.
\<close>

definition snort_entry :: "pyval \<Rightarrow> error + (string \<times> pyval)" where
  "snort_entry data =
     (case py_getitem_int data 0 of
        Inl e \<Rightarrow> Inl e
      | Inr ts \<Rightarrow>
          (case utcfromtimestamp ts of
             Inl e \<Rightarrow> Inl e
           | Inr t \<Rightarrow>
               (case py_getitem_int data 1 of
                  Inl e \<Rightarrow> Inl e
                | Inr v \<Rightarrow> Inr (strftime_HM t, v))))"

text \<open>
  One round of the inner loop: \<open>out[device][converted_time] = data[1]\<close>, or nothing
  when the \<open>try\<close> fails (the error is logged and the sample skipped).
\<close>

definition store_entry ::
  "string \<Rightarrow> (error + (string \<times> pyval)) \<Rightarrow> pyval dict dict \<Rightarrow> pyval dict dict" where
  "store_entry device r out =
     (case r of
        Inl e \<Rightarrow> out
      | Inr (t, v) \<Rightarrow>
          (case map_of out device of
             None \<Rightarrow> out
           | Some inner \<Rightarrow> AList.update device (AList.update t v inner) out))"

text \<open>
  The outer loop visits the devices of the input dict in order; for each it stores an
  empty dict under the device and then runs the inner loop over the device's samples.
  The input dict is the list of its items, so \<open>device\<close> and \<open>raw[device]\<close> are the two
  components of an item; the keys of a dict are distinct.
\<close>

definition convert_device ::
  "(pyval \<Rightarrow> error + (string \<times> pyval)) \<Rightarrow> string \<times> pyval list \<Rightarrow> pyval dict dict \<Rightarrow> pyval dict dict" where
  "convert_device entry ds out =
     fold (\<lambda>data. store_entry (fst ds) (entry data)) (snd ds) (AList.update (fst ds) [] out)"

definition convert_snort_metric_data :: "pyval list dict \<Rightarrow> pyval dict dict" where
  "convert_snort_metric_data raw_snort_cpu_metrics =
     fold (convert_device snort_entry) raw_snort_cpu_metrics []"

section \<open>Normalising the network test results\<close>

text \<open>
  \<open>str.split()\<close> without arguments: the words between runs of white space. The white
  space characters among the first 256 code points are listed.
\<close>

definition is_space :: "char \<Rightarrow> bool" where
  "is_space c \<longleftrightarrow>
     c \<in> set [CHR 0x09, CHR 0x0A, CHR 0x0B, CHR 0x0C, CHR 0x0D, CHR 0x1C, CHR 0x1D,
              CHR 0x1E, CHR 0x1F, CHR 0x20, CHR 0x85, CHR 0xA0]"

fun split_ws :: "string \<Rightarrow> string \<Rightarrow> string list" where
  "split_ws w [] = (if w = [] then [] else [w])"
| "split_ws w (c # cs) =
     (if is_space c then (if w = [] then split_ws [] cs else w # split_ws [] cs)
      else split_ws (w @ [c]) cs)"

definition py_split :: "string \<Rightarrow> string list" where
  "py_split s = split_ws [] s"

text \<open>
  \<open>date.split()[1][:-3]\<close>: a value without a \<open>split\<close> method raises \<open>AttributeError\<close>,
  a string of fewer than two words raises \<open>IndexError\<close>; the slice drops the last three
  characters of the second word (all of it when it is shorter).
\<close>

fun te_time_key :: "pyval \<Rightarrow> error + string" where
  "te_time_key (PStr s) =
     (let ws = py_split s
      in if 1 < length ws then Inr (take (length (ws ! 1) - 3) (ws ! 1)) else Inl IndexError)"
| "te_time_key _ = Inl AttributeError"

text \<open>The body of the \<open>try\<close> in \<open>convert_te_test_data\<close>, in the order of evaluation.\<close>

definition te_entry :: "pyval \<Rightarrow> error + (string \<times> pyval)" where
  "te_entry data =
     (case py_getitem_str data ''date'' of
        Inl e \<Rightarrow> Inl e
      | Inr d \<Rightarrow>
          (case te_time_key d of
             Inl e \<Rightarrow> Inl e
           | Inr converted_time \<Rightarrow>
               (case py_getitem_str data ''avgLatency'' of
                  Inl e \<Rightarrow> Inl e
                | Inr a \<Rightarrow>
                    (case py_getitem_str data ''loss'' of
                       Inl e \<Rightarrow> Inl e
                     | Inr l \<Rightarrow>
                         (case py_getitem_str data ''jitter'' of
                            Inl e \<Rightarrow> Inl e
                          | Inr j \<Rightarrow> Inr (converted_time, PList [a, l, j]))))))"

definition convert_te_test_data :: "pyval list dict \<Rightarrow> pyval dict dict" where
  "convert_te_test_data raw_te_results = fold (convert_device te_entry) raw_te_results []"

section \<open>Summary statistics\<close>

text \<open>
  \<open>float(s)\<close> for a string: white space around the literal is dropped, then come an
  optional sign, decimal digits with an optional point, and an optional exponent.
  \<open>None\<close> is the \<open>ValueError\<close> of a string that is no number. The literals \<open>inf\<close> and
  \<open>nan\<close>, which denote no rational, and digit groups written with underscores are not
  covered.
\<close>

definition is_digit :: "char \<Rightarrow> bool" where
  "is_digit c \<longleftrightarrow> c \<in> set ''0123456789''"

definition digit_val :: "char \<Rightarrow> nat" where
  "digit_val c = length (takeWhile (\<lambda>d. d \<noteq> c) ''0123456789'')"

definition digits_val :: "string \<Rightarrow> nat" where
  "digits_val ds = foldl (\<lambda>n c. 10 * n + digit_val c) 0 ds"

definition strip :: "string \<Rightarrow> string" where
  "strip s = rev (dropWhile is_space (rev (dropWhile is_space s)))"

definition parse_exponent :: "rat \<Rightarrow> string \<Rightarrow> rat option" where
  "parse_exponent m s =
     (case s of
        [] \<Rightarrow> Some m
      | c # r \<Rightarrow>
          if c = CHR ''e'' \<or> c = CHR ''E'' then
            (let neg = (r \<noteq> [] \<and> hd r = CHR ''-'');
                 ds = (if r \<noteq> [] \<and> (hd r = CHR ''-'' \<or> hd r = CHR ''+'') then tl r else r)
             in if ds \<noteq> [] \<and> list_all is_digit ds
                then Some (if neg then m / 10 ^ digits_val ds else m * 10 ^ digits_val ds)
                else None)
          else None)"

definition parse_unsigned :: "string \<Rightarrow> rat option" where
  "parse_unsigned s =
     (let ip = takeWhile is_digit s; r = dropWhile is_digit s
      in case r of
           [] \<Rightarrow> if ip = [] then None else Some (of_nat (digits_val ip))
         | c # r' \<Rightarrow>
             if c = CHR ''.'' then
               (let fp = takeWhile is_digit r'; rest = dropWhile is_digit r'
                in if ip @ fp = [] then None
                   else parse_exponent (of_nat (digits_val (ip @ fp)) / 10 ^ length fp) rest)
             else if ip = [] then None
             else parse_exponent (of_nat (digits_val ip)) (c # r'))"

definition py_float_str :: "string \<Rightarrow> rat option" where
  "py_float_str s =
     (case strip s of
        [] \<Rightarrow> None
      | c # r \<Rightarrow>
          if c = CHR ''-'' then map_option uminus (parse_unsigned r)
          else if c = CHR ''+'' then parse_unsigned r
          else parse_unsigned (c # r))"

text \<open>\<open>float(value)\<close>.\<close>

fun py_float :: "pyval \<Rightarrow> error + rat" where
  "py_float (PStr s) = (case py_float_str s of None \<Rightarrow> Inl ValueError | Some q \<Rightarrow> Inr q)"
| "py_float (PInt i) = Inr (of_int i)"
| "py_float (PBool b) = Inr (if b then 1 else 0)"
| "py_float (PFloat q) = Inr q"
| "py_float _ = Inl TypeError"

text \<open>\<open>round(x, 1)\<close>: an \<open>int\<close> is returned as it is, a \<open>float\<close> is rounded half to even.\<close>

fun py_round1 :: "pyval \<Rightarrow> error + pyval" where
  "py_round1 (PInt i) = Inr (PInt i)"
| "py_round1 (PBool b) = Inr (PInt (if b then 1 else 0))"
| "py_round1 (PFloat q) = Inr (PFloat (of_int (round_half_even (q * 10)) / 10))"
| "py_round1 _ = Inl TypeError"

text \<open>A list comprehension stops at the first element whose expression raises.\<close>

fun map_err :: "('a \<Rightarrow> error + 'b) \<Rightarrow> 'a list \<Rightarrow> error + 'b list" where
  "map_err f [] = Inr []"
| "map_err f (x # xs) =
     (case f x of
        Inl e \<Rightarrow> Inl e
      | Inr y \<Rightarrow> (case map_err f xs of Inl e \<Rightarrow> Inl e | Inr ys \<Rightarrow> Inr (y # ys)))"

text \<open>
  \<open>acc + x\<close> inside \<open>sum\<close>, where the accumulator starts as the \<open>int\<close> 0 and stays a
  number.
\<close>

fun py_add :: "pyval \<Rightarrow> pyval \<Rightarrow> error + pyval" where
  "py_add (PInt a) (PInt b) = Inr (PInt (a + b))"
| "py_add (PInt a) (PBool b) = Inr (PInt (a + (if b then 1 else 0)))"
| "py_add (PInt a) (PFloat b) = Inr (PFloat (of_int a + b))"
| "py_add (PFloat a) (PInt b) = Inr (PFloat (a + of_int b))"
| "py_add (PFloat a) (PBool b) = Inr (PFloat (a + (if b then 1 else 0)))"
| "py_add (PFloat a) (PFloat b) = Inr (PFloat (a + b))"
| "py_add _ _ = Inl TypeError"

fun py_sum_from :: "pyval \<Rightarrow> pyval list \<Rightarrow> error + pyval" where
  "py_sum_from acc [] = Inr acc"
| "py_sum_from acc (x # xs) =
     (case py_add acc x of Inl e \<Rightarrow> Inl e | Inr acc' \<Rightarrow> py_sum_from acc' xs)"

definition py_sum :: "pyval list \<Rightarrow> error + pyval" where
  "py_sum xs = py_sum_from (PInt 0) xs"

text \<open>\<open>total / n\<close> for a number \<open>total\<close> and a positive length \<open>n\<close>: always a \<open>float\<close>.\<close>

fun py_truediv :: "pyval \<Rightarrow> nat \<Rightarrow> error + pyval" where
  "py_truediv (PInt a) n = Inr (PFloat (of_int a / of_nat n))"
| "py_truediv (PFloat a) n = Inr (PFloat (a / of_nat n))"
| "py_truediv _ n = Inl TypeError"

text \<open>
  The loop bodies of \<open>calculate_snort_avg\<close>, \<open>calculate_snort_max\<close> and
  \<open>calculate_te_avg\<close> for one device, given that device's normalised series. Nothing
  catches what they raise.
\<close>

definition snort_avg_of :: "pyval dict \<Rightarrow> error + pyval" where
  "snort_avg_of series =
     (case map_err (\<lambda>kv. py_float (snd kv)) series of
        Inl e \<Rightarrow> Inl e
      | Inr cpu_values \<Rightarrow>
          py_round1 (if 0 < length cpu_values
                     then PFloat (sum_list cpu_values / of_nat (length cpu_values))
                     else PInt 0))"

definition snort_max_of :: "pyval dict \<Rightarrow> error + pyval" where
  "snort_max_of series =
     (case map_err (\<lambda>kv. py_float (snd kv)) series of
        Inl e \<Rightarrow> Inl e
      | Inr cpu_values \<Rightarrow>
          py_round1 (if 0 < length cpu_values
                     then PFloat (foldl max (hd cpu_values) (tl cpu_values))
                     else PInt 0))"

definition te_avg_of :: "pyval dict \<Rightarrow> error + pyval" where
  "te_avg_of series =
     (case map_err (\<lambda>kv. py_getitem_int (snd kv) 0) series of
        Inl e \<Rightarrow> Inl e
      | Inr latency_values \<Rightarrow>
          if 0 < length latency_values then
            (case py_sum latency_values of
               Inl e \<Rightarrow> Inl e
             | Inr summed \<Rightarrow>
                 (case py_truediv summed (length latency_values) of
                    Inl e \<Rightarrow> Inl e
                  | Inr average \<Rightarrow> py_round1 average))
          else py_round1 (PInt 0))"

text \<open>
  The loop over the devices: the statistic of each device is stored under the device;
  the first device whose statistic raises ends the call with that exception.
\<close>

fun calc_loop ::
  "(pyval dict \<Rightarrow> error + pyval) \<Rightarrow> pyval dict dict \<Rightarrow> pyval dict \<Rightarrow> error + pyval dict" where
  "calc_loop f [] out = Inr out"
| "calc_loop f ((device, series) # rest) out =
     (case f series of
        Inl e \<Rightarrow> Inl e
      | Inr v \<Rightarrow> calc_loop f rest (AList.update device v out))"

definition calculate_snort_avg :: "pyval dict dict \<Rightarrow> error + pyval dict" where
  "calculate_snort_avg snort_cpu_metrics = calc_loop snort_avg_of snort_cpu_metrics []"

definition calculate_snort_max :: "pyval dict dict \<Rightarrow> error + pyval dict" where
  "calculate_snort_max snort_cpu_metrics = calc_loop snort_max_of snort_cpu_metrics []"

definition calculate_te_avg :: "pyval dict dict \<Rightarrow> error + pyval dict" where
  "calculate_te_avg te_results = calc_loop te_avg_of te_results []"

section \<open>The normalised series of one device\<close>

text \<open>
  What the inner loop of a conversion leaves under one device: starting from the empty
  dict, every sample whose \<open>try\<close> body succeeds stores its value under its label, in
  list order.
\<close>

definition add_entry :: "(error + (string \<times> pyval)) \<Rightarrow> pyval dict \<Rightarrow> pyval dict" where
  "add_entry r inner = (case r of Inl e \<Rightarrow> inner | Inr (t, v) \<Rightarrow> AList.update t v inner)"

definition normalise :: "(pyval \<Rightarrow> error + (string \<times> pyval)) \<Rightarrow> pyval list \<Rightarrow> pyval dict" where
  "normalise entry xs = fold (\<lambda>data. add_entry (entry data)) xs []"

section \<open>HTTP\<close>

text \<open>
  Both clients talk to their platform through a \<open>requests\<close> session. A request is a
  \<open>GET\<close> with its URL, session headers and parameters, or the authentication \<open>POST\<close>
  with its URL. The platform is a function from the requests sent so far (the newest
  last) to the response to the newest one, so that it may answer the same request
  differently over time. Of a response the clients read the status code, the text and
  the headers. Failures of the transport itself (no connection, malformed URL text)
  are not modelled.
\<close>

datatype request =
    GET string "(string \<times> string) list option" "(string \<times> pyval) list"
  | POST string

record response =
  status_code :: int
  body :: string
  resp_headers :: "(string \<times> string) list"

type_synonym server = "request list \<Rightarrow> response"

text \<open>What a call does: it returns a value, raises, or ends the process (\<open>sys.exit\<close>).\<close>

datatype 'a outcome = Returns 'a | Raises error | Exits int

text \<open>Header names are looked up without regard to case.\<close>

definition lower :: "char \<Rightarrow> char" where
  "lower c =
     (case map_of (zip ''ABCDEFGHIJKLMNOPQRSTUVWXYZ'' ''abcdefghijklmnopqrstuvwxyz'') c of
        Some l \<Rightarrow> l
      | None \<Rightarrow> c)"

definition header :: "response \<Rightarrow> string \<Rightarrow> string option" where
  "header resp name =
     map_of (map (\<lambda>kv. (map lower (fst kv), snd kv)) (resp_headers resp)) (map lower name)"

section \<open>The device/health client\<close>

record FirePower =
  headers :: "(string \<times> string) list option"
  refresh_token :: "string option"
  auth_token :: "string option"
  global_UUID :: "string option"

text \<open>
  \<open>authRequest\<close>: one \<open>POST\<close> to the token endpoint under \<open>PLATFORM_URL\<close>. On 204 the
  three header values are stored one after the other (a missing header raises
  \<open>KeyError\<close> at its lookup) and the session headers are rebuilt; on any other status
  the process exits with \<open>sys.exit(-1)\<close>.
\<close>

definition authRequest ::
  "string \<Rightarrow> server \<Rightarrow> FirePower \<times> request list \<Rightarrow> unit outcome \<times> (FirePower \<times> request list)" where
  "authRequest platform_url srv st =
     (let self = fst st;
          sent = snd st @ [POST (platform_url @ ''/auth/generatetoken'')];
          resp = srv sent
      in if status_code resp = 204 then
           (case header resp ''X-auth-access-token'' of
              None \<Rightarrow> (Raises KeyError, (self, sent))
            | Some a \<Rightarrow>
                (case header resp ''X-auth-refresh-token'' of
                   None \<Rightarrow> (Raises KeyError, (self\<lparr>auth_token := Some a\<rparr>, sent))
                 | Some r \<Rightarrow>
                     (case header resp ''DOMAIN_UUID'' of
                        None \<Rightarrow>
                          (Raises KeyError,
                           (self\<lparr>auth_token := Some a, refresh_token := Some r\<rparr>, sent))
                      | Some u \<Rightarrow>
                          (Returns (),
                           (self\<lparr>auth_token := Some a, refresh_token := Some r,
                                  global_UUID := Some u,
                                  headers := Some [(''Content-Type'', ''application/json''),
                                                   (''X-auth-access-token'', a)]\<rparr>,
                            sent)))))
         else (Exits (- 1), (self, sent)))"

text \<open>The end of both \<open>getData\<close> methods: the text on 200, \<open>None\<close> (logged) otherwise.\<close>

definition text_if_ok :: "response \<Rightarrow> string option" where
  "text_if_ok resp = (if status_code resp = 200 then Some (body resp) else None)"

text \<open>\<open>FirePower.getData\<close>.\<close>

definition fmc_getData ::
  "string \<Rightarrow> server \<Rightarrow> string \<Rightarrow> (string \<times> pyval) list \<Rightarrow> FirePower \<times> request list
     \<Rightarrow> string option outcome \<times> (FirePower \<times> request list)" where
  "fmc_getData platform_url srv get_url params st =
     (let self = fst st;
          sent = snd st @ [GET get_url (headers self) params];
          resp = srv sent
      in if status_code resp = 401 then
           (case authRequest platform_url srv (self, sent) of
              (Returns u, st') \<Rightarrow>
                (let sent' = snd st' @ [GET get_url (headers (fst st')) params]
                 in (Returns (text_if_ok (srv sent')), (fst st', sent')))
            | (Raises e, st') \<Rightarrow> (Raises e, st')
            | (Exits n, st') \<Rightarrow> (Exits n, st'))
         else (Returns (text_if_ok resp), (self, sent)))"

text \<open>
  Two platforms to run the client against. The first refuses everything: 401 to every
  \<open>GET\<close>, 403 to the authentication. The second has let the token expire once: a \<open>GET\<close>
  is answered with 401 until an authentication has been sent and with 200 afterwards,
  and the authentication is answered with 204 and fresh tokens.
\<close>

definition refusing_server :: server where
  "refusing_server sent =
     (case last sent of
        GET u h p \<Rightarrow> \<lparr>status_code = 401, body = ''Unauthorized'', resp_headers = []\<rparr>
      | POST u \<Rightarrow> \<lparr>status_code = 403, body = ''Forbidden'', resp_headers = []\<rparr>)"

definition is_POST :: "request \<Rightarrow> bool" where
  "is_POST r = (case r of POST u \<Rightarrow> True | GET u h p \<Rightarrow> False)"

definition expired_once_server :: server where
  "expired_once_server sent =
     (case last sent of
        GET u h p \<Rightarrow>
          (if list_ex is_POST sent
           then \<lparr>status_code = 200, body = ''devices'', resp_headers = []\<rparr>
           else \<lparr>status_code = 401, body = ''Unauthorized'', resp_headers = []\<rparr>)
      | POST u \<Rightarrow>
          \<lparr>status_code = 204, body = [],
           resp_headers = [(''X-auth-access-token'', ''t2''), (''X-auth-refresh-token'', ''r2''),
                           (''DOMAIN_UUID'', ''dom'')]\<rparr>)"

definition fresh_client :: FirePower where
  "fresh_client = \<lparr>headers = None, refresh_token = None, auth_token = None, global_UUID = None\<rparr>"

section \<open>The network-test client\<close>

text \<open>\<open>ThousandEyes.getData\<close>: one \<open>GET\<close> with the static session headers, no retry.\<close>

definition te_getData ::
  "server \<Rightarrow> (string \<times> string) list \<Rightarrow> string \<Rightarrow> (string \<times> pyval) list \<Rightarrow> request list
     \<Rightarrow> string option \<times> request list" where
  "te_getData srv hs get_url params sent =
     (let sent' = sent @ [GET get_url (Some hs) params] in (text_if_ok (srv sent'), sent'))"

text \<open>\<open>'key' in obj\<close> for a string key.\<close>

fun is_substring :: "string \<Rightarrow> string \<Rightarrow> bool" where
  "is_substring k [] = (k = [])"
| "is_substring k (c # cs) = (take (length k) (c # cs) = k \<or> is_substring k cs)"

fun py_contains :: "string \<Rightarrow> pyval \<Rightarrow> error + bool" where
  "py_contains k (PDict d) = Inr (k \<in> set (map fst d))"
| "py_contains k (PList xs) = Inr (PStr k \<in> set xs)"
| "py_contains k (PStr s) = Inr (is_substring k s)"
| "py_contains k _ = Inl TypeError"

text \<open>The items that \<open>metrics += obj\<close> appends.\<close>

fun py_iter :: "pyval \<Rightarrow> error + pyval list" where
  "py_iter (PList xs) = Inr xs"
| "py_iter (PStr s) = Inr (map (\<lambda>c. PStr [c]) s)"
| "py_iter (PDict d) = Inr (map (\<lambda>kv. PStr (fst kv)) d)"
| "py_iter _ = Inl TypeError"

text \<open>\<open>'net' in resp_json and 'metrics' in resp_json['net']\<close>.\<close>

definition has_metrics :: "pyval \<Rightarrow> error + bool" where
  "has_metrics resp_json =
     (case py_contains ''net'' resp_json of
        Inl e \<Rightarrow> Inl e
      | Inr False \<Rightarrow> Inr False
      | Inr True \<Rightarrow>
          (case py_getitem_str resp_json ''net'' of
             Inl e \<Rightarrow> Inl e
           | Inr net \<Rightarrow> py_contains ''metrics'' net))"

text \<open>The first statement of the loop body: the page's metrics are appended if present.\<close>

definition add_page_metrics :: "pyval \<Rightarrow> pyval list \<Rightarrow> error + pyval list" where
  "add_page_metrics resp_json metrics =
     (case has_metrics resp_json of
        Inl e \<Rightarrow> Inl e
      | Inr False \<Rightarrow> Inr metrics
      | Inr True \<Rightarrow>
          (case py_getitem_str resp_json ''net'' of
             Inl e \<Rightarrow> Inl e
           | Inr net \<Rightarrow>
               (case py_getitem_str net ''metrics'' of
                  Inl e \<Rightarrow> Inl e
                | Inr m \<Rightarrow>
                    (case py_iter m of Inl e \<Rightarrow> Inl e | Inr items \<Rightarrow> Inr (metrics @ items)))))"

text \<open>
  The second statement: \<open>Inr None\<close> when \<open>pages\<close> holds no \<open>next\<close> (the loop breaks),
  \<open>Inr (Some url)\<close> when it does. A cursor that is no string cannot be requested.
\<close>

definition next_cursor :: "pyval \<Rightarrow> error + string option" where
  "next_cursor resp_json =
     (case py_getitem_str resp_json ''pages'' of
        Inl e \<Rightarrow> Inl e
      | Inr pages \<Rightarrow>
          (case py_contains ''next'' pages of
             Inl e \<Rightarrow> Inl e
           | Inr False \<Rightarrow> Inr None
           | Inr True \<Rightarrow>
               (case py_getitem_str pages ''next'' of
                  Inl e \<Rightarrow> Inl e
                | Inr (PStr u) \<Rightarrow> Inr (Some u)
                | Inr _ \<Rightarrow> Inl RequestError)))"

text \<open>
  \<open>json.loads\<close> is a parameter \<open>loads\<close> of the client (\<open>Inl\<close> is its decoding error);
  applied to \<open>None\<close>, the result of a failed request, it raises \<open>TypeError\<close>.
\<close>

definition loads_resp :: "(string \<Rightarrow> error + pyval) \<Rightarrow> string option \<Rightarrow> error + pyval" where
  "loads_resp loads resp = (case resp of None \<Rightarrow> Inl TypeError | Some t \<Rightarrow> loads t)"

text \<open>
  The \<open>while True\<close> loop of \<open>getTestData_NetworkE2E\<close>. Nothing bounds the number of
  pages, so the loop is a partial function: \<open>None\<close> is the run that never ends.
\<close>

partial_function (option) pages_loop ::
  "server \<Rightarrow> (string \<Rightarrow> error + pyval) \<Rightarrow> (string \<times> string) list \<Rightarrow> pyval \<Rightarrow> pyval list
     \<Rightarrow> request list \<Rightarrow> ((error + pyval list) \<times> request list) option" where
  "pages_loop srv loads hs resp_json metrics sent =
     (case add_page_metrics resp_json metrics of
        Inl e \<Rightarrow> Some (Inl e, sent)
      | Inr metrics' \<Rightarrow>
          (case next_cursor resp_json of
             Inl e \<Rightarrow> Some (Inl e, sent)
           | Inr None \<Rightarrow> Some (Inr metrics', sent)
           | Inr (Some u) \<Rightarrow>
               (case loads_resp loads (fst (te_getData srv hs u [] sent)) of
                  Inl e \<Rightarrow> Some (Inl e, snd (te_getData srv hs u [] sent))
                | Inr j \<Rightarrow> pages_loop srv loads hs j metrics' (snd (te_getData srv hs u [] sent)))))"

text \<open>Decimal rendering of the test id and of the time period in the URL.\<close>

fun show_nat :: "nat \<Rightarrow> string" where
  "show_nat n = (if n < 10 then [digit_char n] else show_nat (n div 10) @ [digit_char (n mod 10)])"

definition show_int :: "int \<Rightarrow> string" where
  "show_int i = (if i < 0 then CHR ''-'' # show_nat (nat (- i)) else show_nat (nat i))"

text \<open>
  \<open>getTestData_NetworkE2E\<close>, for an integer test id and time period. \<open>Inr None\<close> is the
  "not found" result (logged).
\<close>

definition getTestData_NetworkE2E ::
  "server \<Rightarrow> (string \<Rightarrow> error + pyval) \<Rightarrow> (string \<times> string) list \<Rightarrow> string \<Rightarrow> int \<Rightarrow> int
     \<Rightarrow> request list \<Rightarrow> ((error + pyval list option) \<times> request list) option" where
  "getTestData_NetworkE2E srv loads hs base_url test_id time_period sent =
     (let url = base_url @ ''/net/metrics/'' @ show_int test_id;
          params = [(''window'', PStr (show_int time_period @ ''s''))];
          resp = fst (te_getData srv hs url params sent);
          sent1 = snd (te_getData srv hs url params sent)
      in case resp of
           None \<Rightarrow> Some (Inr None, sent1)
         | Some t \<Rightarrow>
             if t = [] then Some (Inr None, sent1)
             else
               (case loads t of
                  Inl e \<Rightarrow> Some (Inl e, sent1)
                | Inr resp_json \<Rightarrow>
                    (case has_metrics resp_json of
                       Inl e \<Rightarrow> Some (Inl e, sent1)
                     | Inr False \<Rightarrow> Some (Inr None, sent1)
                     | Inr True \<Rightarrow>
                         map_option (\<lambda>r. (map_sum id Some (fst r), snd r))
                           (pages_loop srv loads hs resp_json [] sent1))))"

section \<open>Chains of pages\<close>

text \<open>
  The shape of a page of network metrics, read off the decoded JSON: its
  \<open>net.metrics\<close> field and its \<open>pages.next\<close> cursor, when present. A page is well formed
  when it is an object whose \<open>net\<close>, if present, is an object whose \<open>metrics\<close>, if
  present, is an array, and which has a \<open>pages\<close> object.
\<close>

definition metrics_field :: "pyval \<Rightarrow> pyval option" where
  "metrics_field p =
     (case p of
        PDict d \<Rightarrow> (case map_of d ''net'' of Some (PDict n) \<Rightarrow> map_of n ''metrics'' | _ \<Rightarrow> None)
      | _ \<Rightarrow> None)"

definition page_metrics :: "pyval \<Rightarrow> pyval list" where
  "page_metrics p = (case metrics_field p of Some (PList ms) \<Rightarrow> ms | _ \<Rightarrow> [])"

definition cursor_field :: "pyval \<Rightarrow> pyval option" where
  "cursor_field p =
     (case p of
        PDict d \<Rightarrow> (case map_of d ''pages'' of Some (PDict g) \<Rightarrow> map_of g ''next'' | _ \<Rightarrow> None)
      | _ \<Rightarrow> None)"

definition page_ok :: "pyval \<Rightarrow> bool" where
  "page_ok p =
     (case p of
        PDict d \<Rightarrow>
          (case map_of d ''net'' of
             None \<Rightarrow> True
           | Some (PDict n) \<Rightarrow>
               (case map_of n ''metrics'' of None \<Rightarrow> True | Some (PList ms) \<Rightarrow> True | Some _ \<Rightarrow> False)
           | Some _ \<Rightarrow> False)
          \<and> (case map_of d ''pages'' of Some (PDict g) \<Rightarrow> True | _ \<Rightarrow> False)
      | _ \<Rightarrow> False)"

text \<open>
  A chain of pages served by the platform after the requests \<open>sent\<close>: \<open>p\<close> is the page
  at hand and \<open>ps\<close> the pages after it. Every page but the last holds a cursor, the
  \<open>GET\<close> of that cursor is answered with 200 and the text of the next page; the last
  page holds no cursor.
\<close>

fun page_chain ::
  "server \<Rightarrow> (string \<Rightarrow> error + pyval) \<Rightarrow> (string \<times> string) list \<Rightarrow> request list \<Rightarrow> pyval
     \<Rightarrow> pyval list \<Rightarrow> bool" where
  "page_chain srv loads hs sent p [] = (page_ok p \<and> cursor_field p = None)"
| "page_chain srv loads hs sent p (q # qs) =
     (page_ok p \<and>
      (case cursor_field p of
         Some (PStr u) \<Rightarrow>
           status_code (srv (sent @ [GET u (Some hs) []])) = 200
           \<and> loads (body (srv (sent @ [GET u (Some hs) []]))) = Inr q
           \<and> page_chain srv loads hs (sent @ [GET u (Some hs) []]) q qs
       | _ \<Rightarrow> False))"

text \<open>The requests that following the cursors of a chain amounts to.\<close>

fun cursor_requests :: "(string \<times> string) list \<Rightarrow> pyval \<Rightarrow> pyval list \<Rightarrow> request list" where
  "cursor_requests hs p [] = []"
| "cursor_requests hs p (q # qs) =
     (case cursor_field p of Some (PStr u) \<Rightarrow> [GET u (Some hs) []] | _ \<Rightarrow> [])
     @ cursor_requests hs q qs"

text \<open>A platform that serves the metrics of test 1234 in three pages, and its decoder.\<close>

definition te_page :: "int \<Rightarrow> string option \<Rightarrow> pyval" where
  "te_page n nxt =
     PDict [(''net'', PDict [(''metrics'', PList [PDict [(''avgLatency'', PInt n)]])]),
            (''pages'', PDict ((''current'', PInt n) #
                               (case nxt of None \<Rightarrow> [] | Some u \<Rightarrow> [(''next'', PStr u)])))]"

definition three_page_server :: server where
  "three_page_server sent =
     (case last sent of
        GET u h p \<Rightarrow>
          (if u = ''https://api.thousandeyes.com/v6/net/metrics/1234''
           then \<lparr>status_code = 200, body = ''page1'', resp_headers = []\<rparr>
           else if u = ''https://api.thousandeyes.com/v6/net/metrics/1234?page=2''
           then \<lparr>status_code = 200, body = ''page2'', resp_headers = []\<rparr>
           else if u = ''https://api.thousandeyes.com/v6/net/metrics/1234?page=3''
           then \<lparr>status_code = 200, body = ''page3'', resp_headers = []\<rparr>
           else \<lparr>status_code = 404, body = ''Not Found'', resp_headers = []\<rparr>)
      | POST u \<Rightarrow> \<lparr>status_code = 404, body = ''Not Found'', resp_headers = []\<rparr>)"

definition three_page_loads :: "string \<Rightarrow> error + pyval" where
  "three_page_loads t =
     (if t = ''page1'' then Inr (te_page 1 (Some ''https://api.thousandeyes.com/v6/net/metrics/1234?page=2''))
      else if t = ''page2'' then Inr (te_page 2 (Some ''https://api.thousandeyes.com/v6/net/metrics/1234?page=3''))
      else if t = ''page3'' then Inr (te_page 3 None)
      else Inl ValueError)"

section \<open>Merging the results onto the devices\<close>

text \<open>
  The last part of \<open>index\<close>. A device is a dict; the mappings from device id to data
  have string keys. \<open>device['id'] in mapping\<close> hashes the id: a list or a dict raises
  \<open>TypeError\<close>, any other value that is not a string is no key of the mapping.
\<close>

fun lookup_id :: "pyval \<Rightarrow> pyval dict \<Rightarrow> error + pyval option" where
  "lookup_id (PStr i) m = Inr (map_of m i)"
| "lookup_id (PList xs) m = Inl TypeError"
| "lookup_id (PDict d) m = Inl TypeError"
| "lookup_id _ m = Inr None"

text \<open>
  One \<open>if mapping and device['id'] in mapping: ... else: ...\<close> block: the field is set
  to the device's data, or to \<open>None\<close> when the mapping is \<open>None\<close>, empty or without the
  device. The id is read only when the mapping is non-empty.
\<close>

definition attach :: "string \<Rightarrow> pyval dict option \<Rightarrow> pyval dict \<Rightarrow> error + pyval dict" where
  "attach field mapping device =
     (case mapping of
        None \<Rightarrow> Inr (AList.update field PNone device)
      | Some m \<Rightarrow>
          if m = [] then Inr (AList.update field PNone device)
          else
            (case py_getitem_str (PDict device) ''id'' of
               Inl e \<Rightarrow> Inl e
             | Inr i \<Rightarrow>
                 (case lookup_id i m of
                    Inl e \<Rightarrow> Inl e
                  | Inr None \<Rightarrow> Inr (AList.update field PNone device)
                  | Inr (Some v) \<Rightarrow> Inr (AList.update field v device))))"

definition bind_err :: "error + 'a \<Rightarrow> ('a \<Rightarrow> error + 'b) \<Rightarrow> error + 'b" where
  "bind_err r f = (case r of Inl e \<Rightarrow> Inl e | Inr x \<Rightarrow> f x)"

text \<open>A mapping whose values are dicts, as a mapping to values.\<close>

definition as_values :: "pyval dict dict \<Rightarrow> pyval dict" where
  "as_values m = map (\<lambda>kv. (fst kv, PDict (snd kv))) m"

text \<open>The body of the loop over the devices: the six blocks in their order.\<close>

definition merge_device ::
  "pyval dict \<Rightarrow> pyval dict dict option \<Rightarrow> pyval dict option \<Rightarrow> pyval dict option
     \<Rightarrow> pyval dict dict \<Rightarrow> pyval dict \<Rightarrow> pyval dict \<Rightarrow> error + pyval dict" where
  "merge_device raw_te_test_details snort_cpu_metrics snort_average snort_max_24h te_results
     te_latency_average device =
     bind_err (attach ''te_test_details'' (Some raw_te_test_details) device) (\<lambda>d1.
     bind_err (attach ''snort_cpu_data'' (map_option as_values snort_cpu_metrics) d1) (\<lambda>d2.
     bind_err (attach ''snort_cpu_avg'' snort_average d2) (\<lambda>d3.
     bind_err (attach ''snort_cpu_max'' snort_max_24h d3) (\<lambda>d4.
     bind_err (attach ''te_test_data'' (Some (as_values te_results)) d4) (\<lambda>d5.
     attach ''te_latency_avg'' (Some te_latency_average) d5)))))"

text \<open>
  \<open>sorted(devices, key=lambda device: device['name'])\<close>. The keys are computed first
  (a device without the key raises \<open>KeyError\<close>). A list of at most one device needs no
  comparison. Strings compare by code point, and the sort is stable; \<open>None\<close> compares
  with nothing, so two or more devices of which one is named \<open>None\<close> raise \<open>TypeError\<close>.
  Names are strings or \<open>None\<close>, as \<open>get_ftd_devices\<close> builds them from the inventory;
  names of other JSON types are outside the model (they are treated like \<open>None\<close>).
\<close>

definition is_str :: "pyval \<Rightarrow> bool" where
  "is_str v = (case v of PStr s \<Rightarrow> True | _ \<Rightarrow> False)"

definition name_str :: "pyval dict \<Rightarrow> string" where
  "name_str device = (case map_of device ''name'' of Some (PStr s) \<Rightarrow> s | _ \<Rightarrow> [])"

definition sorted_by_name :: "pyval dict list \<Rightarrow> error + pyval dict list" where
  "sorted_by_name devices =
     (case map_err (\<lambda>device. py_getitem_str (PDict device) ''name'') devices of
        Inl e \<Rightarrow> Inl e
      | Inr names \<Rightarrow>
          if length devices \<le> 1 then Inr devices
          else if list_all is_str names then Inr (sort_key name_str devices)
          else Inl TypeError)"

text \<open>Lines 371 to 415 of \<open>index\<close>: the loop, then the sort.\<close>

definition merge_and_sort ::
  "pyval dict \<Rightarrow> pyval dict dict option \<Rightarrow> pyval dict option \<Rightarrow> pyval dict option
     \<Rightarrow> pyval dict dict \<Rightarrow> pyval dict \<Rightarrow> pyval dict list \<Rightarrow> error + pyval dict list" where
  "merge_and_sort raw_te_test_details snort_cpu_metrics snort_average snort_max_24h te_results
     te_latency_average devices =
     bind_err
       (map_err (merge_device raw_te_test_details snort_cpu_metrics snort_average snort_max_24h
                   te_results te_latency_average) devices)
       sorted_by_name"

text \<open>The six fields that the loop attaches.\<close>

definition derived_fields :: "string list" where
  "derived_fields = [''te_test_details'', ''snort_cpu_data'', ''snort_cpu_avg'', ''snort_cpu_max'',
                     ''te_test_data'', ''te_latency_avg'']"

section \<open>Properties of the conversions\<close>

lemma store_entry_present:
  "map_of out device = Some inner \<Longrightarrow>
   store_entry device r out = AList.update device (add_entry r inner) out"
  by (auto simp: store_entry_def add_entry_def AList.update_triv split: sum.splits)

lemma fold_store_entry:
  "map_of out device = Some inner \<Longrightarrow>
   fold (\<lambda>data. store_entry device (entry data)) xs out =
   AList.update device (fold (\<lambda>data. add_entry (entry data)) xs inner) out"
proof (induction xs arbitrary: out inner)
  case Nil
  then show ?case by (simp add: AList.update_triv)
next
  case (Cons x xs)
  have "map_of (AList.update device (add_entry (entry x) inner) out) device
        = Some (add_entry (entry x) inner)"
    by (simp add: AList.update_conv')
  from Cons.IH [OF this] show ?case
    using Cons.prems by (simp add: store_entry_present)
qed

lemma convert_device_eq:
  "convert_device entry (d, xs) out = AList.update d (normalise entry xs) out"
  unfolding convert_device_def normalise_def
  using fold_store_entry [of "AList.update d [] out" d "[]" entry xs]
  by (simp add: AList.update_conv')

lemma map_of_fold_convert:
  "map_of (fold (convert_device entry) raw out) k =
     (case map_of (rev raw) k of Some xs \<Rightarrow> Some (normalise entry xs) | None \<Rightarrow> map_of out k)"
proof (induction raw arbitrary: out)
  case Nil
  then show ?case by simp
next
  case (Cons p raw)
  obtain d xs where p: "p = (d, xs)" by (cases p)
  show ?case
    by (simp add: p Cons.IH convert_device_eq AList.update_conv' map_add_def split: option.splits)
qed

lemma keys_fold_convert:
  "fst ` set (fold (convert_device entry) raw out) = fst ` set out \<union> fst ` set raw"
proof (induction raw arbitrary: out)
  case Nil
  then show ?case by simp
next
  case (Cons p raw)
  obtain d xs where p: "p = (d, xs)" by (cases p)
  show ?case by (auto simp: p Cons.IH convert_device_eq AList.dom_update)
qed

lemma distinct_fold_convert:
  "distinct (map fst out) \<Longrightarrow> distinct (map fst (fold (convert_device entry) raw out))"
proof (induction raw arbitrary: out)
  case Nil
  then show ?case by simp
next
  case (Cons p raw)
  obtain d xs where p: "p = (d, xs)" by (cases p)
  show ?case using Cons.prems by (simp add: p Cons.IH convert_device_eq AList.distinct_update)
qed


lemma map_of_rev_distinct:
  "distinct (map fst raw) \<Longrightarrow> (d, xs) \<in> set raw \<Longrightarrow> map_of (rev raw) d = Some xs"
  by (rule map_of_is_SomeI) (simp_all add: rev_map [symmetric])

lemma normalise_snoc:
  "normalise entry (xs @ [x]) = add_entry (entry x) (normalise entry xs)"
  by (simp add: normalise_def)

lemma distinct_add_entry:
  "distinct (map fst inner) \<Longrightarrow> distinct (map fst (add_entry r inner))"
  by (auto simp: add_entry_def AList.distinct_update split: sum.splits)

lemma distinct_normalise: "distinct (map fst (normalise entry xs))"
  by (induction xs rule: rev_induct) (simp_all add: normalise_snoc distinct_add_entry, simp add: normalise_def)

lemma keys_normalise:
  "fst ` set (normalise entry xs) = {l. \<exists>x \<in> set xs. \<exists>v. entry x = Inr (l, v)}"
proof (induction xs rule: rev_induct)
  case Nil
  then show ?case by (simp add: normalise_def)
next
  case (snoc x xs)
  show ?case
  proof (cases "entry x")
    case (Inl e)
    then show ?thesis using snoc by (auto simp: normalise_snoc add_entry_def)
  next
    case (Inr p)
    obtain l v where "p = (l, v)" by (cases p)
    with Inr snoc show ?thesis
      by (auto simp: normalise_snoc add_entry_def AList.dom_update)
  qed
qed

lemma map_of_normalise_index:
  "map_of (normalise entry xs) l = Some v \<longleftrightarrow>
     (\<exists>i < length xs. entry (xs ! i) = Inr (l, v) \<and>
        (\<forall>j. i < j \<and> j < length xs \<longrightarrow> (\<forall>v'. entry (xs ! j) \<noteq> Inr (l, v'))))"
proof (induction xs rule: rev_induct)
  case Nil
  then show ?case by (simp add: normalise_def)
next
  case (snoc x xs)
  show ?case
  proof (cases "\<exists>v0. entry x = Inr (l, v0)")
    case True
    then obtain v0 where v0: "entry x = Inr (l, v0)" by blast
    have L: "map_of (normalise entry (xs @ [x])) l = Some v0"
      by (simp add: normalise_snoc add_entry_def v0 AList.update_conv')
    show ?thesis
    proof
      assume "map_of (normalise entry (xs @ [x])) l = Some v"
      with L have "v = v0" by simp
      then show "\<exists>i < length (xs @ [x]). entry ((xs @ [x]) ! i) = Inr (l, v) \<and>
        (\<forall>j. i < j \<and> j < length (xs @ [x]) \<longrightarrow> (\<forall>v'. entry ((xs @ [x]) ! j) \<noteq> Inr (l, v')))"
        using v0 by (intro exI [of _ "length xs"]) auto
    next
      assume "\<exists>i < length (xs @ [x]). entry ((xs @ [x]) ! i) = Inr (l, v) \<and>
        (\<forall>j. i < j \<and> j < length (xs @ [x]) \<longrightarrow> (\<forall>v'. entry ((xs @ [x]) ! j) \<noteq> Inr (l, v')))"
      then obtain i where i: "i < length (xs @ [x])" "entry ((xs @ [x]) ! i) = Inr (l, v)"
        and last: "\<forall>j. i < j \<and> j < length (xs @ [x]) \<longrightarrow> (\<forall>v'. entry ((xs @ [x]) ! j) \<noteq> Inr (l, v'))"
        by blast
      have "i = length xs"
      proof (rule ccontr)
        assume "i \<noteq> length xs"
        with i have "i < length xs" by simp
        with last have "entry ((xs @ [x]) ! length xs) \<noteq> Inr (l, v0)"
          by (metis length_append_singleton lessI)
        with v0 show False by simp
      qed
      with i v0 have "v = v0" by simp
      with L show "map_of (normalise entry (xs @ [x])) l = Some v" by simp
    qed
  next
    case False
    have L: "map_of (normalise entry (xs @ [x])) l = map_of (normalise entry xs) l"
    proof (cases "entry x")
      case (Inl e)
      then show ?thesis by (simp add: normalise_snoc add_entry_def)
    next
      case (Inr p)
      obtain l' v' where p: "p = (l', v')" by (cases p)
      with Inr False have "l' \<noteq> l" by auto
      with Inr p show ?thesis by (simp add: normalise_snoc add_entry_def AList.update_conv')
    qed
    have R: "(\<exists>i < length (xs @ [x]). entry ((xs @ [x]) ! i) = Inr (l, v) \<and>
        (\<forall>j. i < j \<and> j < length (xs @ [x]) \<longrightarrow> (\<forall>v'. entry ((xs @ [x]) ! j) \<noteq> Inr (l, v'))))
      \<longleftrightarrow> (\<exists>i < length xs. entry (xs ! i) = Inr (l, v) \<and>
        (\<forall>j. i < j \<and> j < length xs \<longrightarrow> (\<forall>v'. entry (xs ! j) \<noteq> Inr (l, v'))))"
      (is "?A \<longleftrightarrow> ?B")
    proof
      assume ?A
      then obtain i where i: "i < length (xs @ [x])" "entry ((xs @ [x]) ! i) = Inr (l, v)"
        and last: "\<forall>j. i < j \<and> j < length (xs @ [x]) \<longrightarrow> (\<forall>v'. entry ((xs @ [x]) ! j) \<noteq> Inr (l, v'))"
        by blast
      have "i \<noteq> length xs" using i(2) False by auto
      with i(1) have il: "i < length xs" by simp
      have "entry (xs ! i) = Inr (l, v)" using i(2) il by (simp add: nth_append)
      moreover have "\<forall>j. i < j \<and> j < length xs \<longrightarrow> (\<forall>v'. entry (xs ! j) \<noteq> Inr (l, v'))"
      proof (intro allI impI)
        fix j v' assume j: "i < j \<and> j < length xs"
        then have "entry ((xs @ [x]) ! j) \<noteq> Inr (l, v')" using last by simp
        with j show "entry (xs ! j) \<noteq> Inr (l, v')" by (simp add: nth_append)
      qed
      ultimately show ?B using il by blast
    next
      assume ?B
      then obtain i where il: "i < length xs" and e: "entry (xs ! i) = Inr (l, v)"
        and last: "\<forall>j. i < j \<and> j < length xs \<longrightarrow> (\<forall>v'. entry (xs ! j) \<noteq> Inr (l, v'))"
        by blast
      have "entry ((xs @ [x]) ! i) = Inr (l, v)" using e il by (simp add: nth_append)
      moreover have "\<forall>j. i < j \<and> j < length (xs @ [x]) \<longrightarrow> (\<forall>v'. entry ((xs @ [x]) ! j) \<noteq> Inr (l, v'))"
      proof (intro allI impI)
        fix j v' assume j: "i < j \<and> j < length (xs @ [x])"
        show "entry ((xs @ [x]) ! j) \<noteq> Inr (l, v')"
        proof (cases "j < length xs")
          case True
          with j last show ?thesis by (simp add: nth_append)
        next
          case False
          with j have "j = length xs" by simp
          with \<open>\<not> (\<exists>v0. entry x = Inr (l, v0))\<close> show ?thesis by simp
        qed
      qed
      ultimately show ?A using il by (intro exI [of _ i]) simp
    qed
    show ?thesis using L R snoc.IH by simp
  qed
qed

subsection \<open>Labels and samples\<close>

lemma hour_of:
  assumes "0 \<le> h" "h < 24" "0 \<le> m" "m < 60" "0 \<le> s" "s < 60"
  shows "((86400 * d + 3600 * h + 60 * m + s) mod 86400) div 3600 = (h::int)"
proof -
  have r: "0 \<le> 3600 * h + 60 * m + s" "3600 * h + 60 * m + s < 86400" using assms by auto
  have "(86400 * d + 3600 * h + 60 * m + s) mod 86400 = (3600 * h + 60 * m + s) mod 86400"
    by (simp add: add.assoc)
  also have "\<dots> = 3600 * h + 60 * m + s" using r by simp
  finally have "((86400 * d + 3600 * h + 60 * m + s) mod 86400) div 3600
                = (3600 * h + (60 * m + s)) div 3600" by (simp add: add.assoc)
  also have "\<dots> = h + (60 * m + s) div 3600" by simp
  also have "(60 * m + s) div 3600 = 0" using assms by (simp add: div_pos_pos_trivial)
  finally show ?thesis by simp
qed

lemma minute_of:
  assumes "0 \<le> m" "m < 60" "0 \<le> s" "s < 60"
  shows "((86400 * d + 3600 * h + 60 * m + s) mod 3600) div 60 = (m::int)"
proof -
  have "86400 * d + 3600 * h + 60 * m + s = 3600 * (24 * d + h) + (60 * m + s)" by simp
  then have "(86400 * d + 3600 * h + 60 * m + s) mod 3600 = (60 * m + s) mod 3600"
    by (metis mod_mult_self4)
  also have "\<dots> = 60 * m + s" using assms by simp
  finally have "((86400 * d + 3600 * h + 60 * m + s) mod 3600) div 60 = (60 * m + s) div 60"
    by simp
  also have "\<dots> = m + s div 60" by simp
  also have "s div 60 = 0" using assms by (simp add: div_pos_pos_trivial)
  finally show ?thesis by simp
qed

lemma strftime_HM_label:
  assumes "0 \<le> h" "h < 24" "0 \<le> m" "m < 60" "0 \<le> s" "s < 60"
  shows "strftime_HM (86400 * d + 3600 * h + 60 * m + s)
         = [''0123456789'' ! nat (h div 10), ''0123456789'' ! nat (h mod 10), CHR '':'',
            ''0123456789'' ! nat (m div 10), ''0123456789'' ! nat (m mod 10)]"
  unfolding strftime_HM_def hour_of [OF assms] minute_of [OF assms(3-6)] pad2_def digit_char_def
  using assms(1,3) by (simp add: nat_div_distrib nat_mod_distrib)

lemma round_half_even_nearest:
  "\<bar>x - of_int (round_half_even x)\<bar> \<le> 1 / 2
   \<and> (\<bar>x - of_int (round_half_even x)\<bar> = 1 / 2 \<longrightarrow> even (round_half_even x))"
proof -
  define f where "f = \<lfloor>x\<rfloor>"
  define r where "r = x - of_int f"
  have r0: "0 \<le> r" "r < 1" unfolding r_def f_def by linarith+
  have x: "x = of_int f + r" by (simp add: r_def)
  show ?thesis
    unfolding round_half_even_def Let_def f_def [symmetric] r_def [symmetric]
    using r0 by (auto simp: x)
qed

lemma snort_entry_Inr:
  "snort_entry data = Inr (l, v) \<longleftrightarrow>
     (\<exists>xs t. data = PList xs \<and> 2 \<le> length xs \<and> v = xs ! 1 \<and> l = strftime_HM t
        \<and> - 62135596800 \<le> t \<and> t \<le> 253402300799
        \<and> (xs ! 0 = PInt t
             \<or> (\<exists>b. xs ! 0 = PBool b \<and> t = (if b then 1 else 0))
             \<or> (\<exists>q. xs ! 0 = PFloat q \<and> t = round_half_even (q * 1000000) div 1000000)))"
  (is "?L \<longleftrightarrow> ?R")
proof
  assume ?L
  then obtain ts t where a: "py_getitem_int data 0 = Inr ts" and b: "utcfromtimestamp ts = Inr t"
    and c: "py_getitem_int data 1 = Inr v" and l: "l = strftime_HM t"
    unfolding snort_entry_def by (auto split: sum.splits)
  from b have nostr: "\<And>s. ts \<noteq> PStr s" by auto
  from a c nostr obtain xs where xs: "data = PList xs" "2 \<le> length xs" "ts = xs ! 0" "v = xs ! 1"
    by (cases data) (auto split: if_splits)
  from b have "- 62135596800 \<le> t \<and> t \<le> 253402300799
        \<and> (ts = PInt t
             \<or> (\<exists>b. ts = PBool b \<and> t = (if b then 1 else 0))
             \<or> (\<exists>q. ts = PFloat q \<and> t = round_half_even (q * 1000000) div 1000000))"
    by (cases ts) (auto simp: in_datetime_range_def Let_def split: if_splits)
  with xs l show ?R by blast
next
  assume ?R
  then show ?L
    by (auto simp: snort_entry_def in_datetime_range_def Let_def)
qed

lemma snort_entry_int:
  "- 62135596800 \<le> t \<Longrightarrow> t \<le> 253402300799 \<Longrightarrow>
     snort_entry (PList [PInt t, v]) = Inr (strftime_HM t, v)"
  by (simp add: snort_entry_def in_datetime_range_def)

text \<open>
  C1. A sample \<open>[t, v]\<close> is filed under the UTC hour and minute of \<open>t\<close>, written with two
  digits each, with the value \<open>v\<close>: the label of second \<open>s\<close> of minute \<open>m\<close> of hour \<open>h\<close> of
  any day \<open>d\<close> after (or before) the epoch is \<open>hh:mm\<close>. A sample converts exactly when it
  is a list of at least two items whose first item is a number that falls in the years
  1 to 9999 (a \<open>bool\<close> counts as 0 or 1, a \<open>float\<close> is rounded to the nearest microsecond,
  ties to even, and then cut to the whole second). For every raw health-metric series
  of a device, \<open>convert_snort_metric_data\<close> stores under the device a dict with exactly
  one entry per distinct label met among the samples that convert, and the value under
  a label is the value of the last sample, in list order, that bears the label.
\<close>

theorem convert_snort_last_wins:
  assumes "distinct (map fst raw)" and "(device, samples) \<in> set raw"
  shows "(\<forall>d h m s. 0 \<le> h \<and> h < 24 \<and> 0 \<le> m \<and> m < 60 \<and> 0 \<le> s \<and> s < 60 \<longrightarrow>
            strftime_HM (86400 * d + 3600 * h + 60 * m + s)
            = [''0123456789'' ! nat (h div 10), ''0123456789'' ! nat (h mod 10), CHR '':'',
               ''0123456789'' ! nat (m div 10), ''0123456789'' ! nat (m mod 10)])
       \<and> (\<forall>x. \<bar>x - of_int (round_half_even x)\<bar> \<le> 1 / 2
              \<and> (\<bar>x - of_int (round_half_even x)\<bar> = 1 / 2 \<longrightarrow> even (round_half_even x)))
       \<and> (\<forall>data l v. snort_entry data = Inr (l, v) \<longleftrightarrow>
              (\<exists>xs t. data = PList xs \<and> 2 \<le> length xs \<and> v = xs ! 1 \<and> l = strftime_HM t
                 \<and> - 62135596800 \<le> t \<and> t \<le> 253402300799
                 \<and> (xs ! 0 = PInt t
                      \<or> (\<exists>b. xs ! 0 = PBool b \<and> t = (if b then 1 else 0))
                      \<or> (\<exists>q. xs ! 0 = PFloat q
                              \<and> t = round_half_even (q * 1000000) div 1000000))))
       \<and> (\<exists>series. map_of (convert_snort_metric_data raw) device = Some series
             \<and> distinct (map fst series)
             \<and> fst ` set series = {l. \<exists>x \<in> set samples. \<exists>v. snort_entry x = Inr (l, v)}
             \<and> (\<forall>l v. map_of series l = Some v \<longleftrightarrow>
                   (\<exists>i < length samples. snort_entry (samples ! i) = Inr (l, v) \<and>
                      (\<forall>j. i < j \<and> j < length samples \<longrightarrow>
                         (\<forall>v'. snort_entry (samples ! j) \<noteq> Inr (l, v')))))
             \<and> (\<forall>i t v. i < length samples \<and> samples ! i = PList [PInt t, v]
                   \<and> - 62135596800 \<le> t \<and> t \<le> 253402300799
                   \<and> (\<forall>j. i < j \<and> j < length samples \<longrightarrow>
                         (\<forall>v'. snort_entry (samples ! j) \<noteq> Inr (strftime_HM t, v')))
                   \<longrightarrow> map_of series (strftime_HM t) = Some v))"
proof -
  define series where "series = normalise snort_entry samples"
  have s: "map_of (convert_snort_metric_data raw) device = Some series"
    unfolding convert_snort_metric_data_def series_def
    by (simp add: map_of_fold_convert map_of_rev_distinct [OF assms])
  have di: "distinct (map fst series)" unfolding series_def by (rule distinct_normalise)
  have ks: "fst ` set series = {l. \<exists>x \<in> set samples. \<exists>v. snort_entry x = Inr (l, v)}"
    unfolding series_def by (rule keys_normalise)
  have lw: "map_of series l = Some v \<longleftrightarrow>
              (\<exists>i < length samples. snort_entry (samples ! i) = Inr (l, v) \<and>
                 (\<forall>j. i < j \<and> j < length samples \<longrightarrow>
                    (\<forall>v'. snort_entry (samples ! j) \<noteq> Inr (l, v'))))" for l v
    unfolding series_def by (rule map_of_normalise_index)
  have direct: "map_of series (strftime_HM t) = Some v"
    if "i < length samples \<and> samples ! i = PList [PInt t, v]
        \<and> - 62135596800 \<le> t \<and> t \<le> 253402300799
        \<and> (\<forall>j. i < j \<and> j < length samples \<longrightarrow>
              (\<forall>v'. snort_entry (samples ! j) \<noteq> Inr (strftime_HM t, v')))" for i t v
  proof -
    from that have e: "snort_entry (samples ! i) = Inr (strftime_HM t, v)"
      by (simp add: snort_entry_int)
    show ?thesis unfolding lw
      apply (rule exI [of _ i])
      using that e by simp
  qed
  have per: "\<exists>series. map_of (convert_snort_metric_data raw) device = Some series
             \<and> distinct (map fst series)
             \<and> fst ` set series = {l. \<exists>x \<in> set samples. \<exists>v. snort_entry x = Inr (l, v)}
             \<and> (\<forall>l v. map_of series l = Some v \<longleftrightarrow>
                   (\<exists>i < length samples. snort_entry (samples ! i) = Inr (l, v) \<and>
                      (\<forall>j. i < j \<and> j < length samples \<longrightarrow>
                         (\<forall>v'. snort_entry (samples ! j) \<noteq> Inr (l, v')))))
             \<and> (\<forall>i t v. i < length samples \<and> samples ! i = PList [PInt t, v]
                   \<and> - 62135596800 \<le> t \<and> t \<le> 253402300799
                   \<and> (\<forall>j. i < j \<and> j < length samples \<longrightarrow>
                         (\<forall>v'. snort_entry (samples ! j) \<noteq> Inr (strftime_HM t, v')))
                   \<longrightarrow> map_of series (strftime_HM t) = Some v)"
    apply (rule exI [of _ series])
    apply (intro conjI allI impI)
        apply (rule s)
       apply (rule di)
      apply (rule ks)
     apply (rule lw)
    apply (erule direct)
    done
  have lab: "\<forall>d h m s. 0 \<le> h \<and> h < 24 \<and> 0 \<le> m \<and> m < 60 \<and> 0 \<le> s \<and> s < 60 \<longrightarrow>
            strftime_HM (86400 * d + 3600 * h + 60 * m + s)
            = [''0123456789'' ! nat (h div 10), ''0123456789'' ! nat (h mod 10), CHR '':'',
               ''0123456789'' ! nat (m div 10), ''0123456789'' ! nat (m mod 10)]"
    by (intro allI impI, elim conjE) (rule strftime_HM_label)
  have rnd: "\<forall>x. \<bar>x - of_int (round_half_even x)\<bar> \<le> 1 / 2
              \<and> (\<bar>x - of_int (round_half_even x)\<bar> = 1 / 2 \<longrightarrow> even (round_half_even x))"
    by (intro allI) (rule round_half_even_nearest)
  have ent: "\<forall>data l v. snort_entry data = Inr (l, v) \<longleftrightarrow>
              (\<exists>xs t. data = PList xs \<and> 2 \<le> length xs \<and> v = xs ! 1 \<and> l = strftime_HM t
                 \<and> - 62135596800 \<le> t \<and> t \<le> 253402300799
                 \<and> (xs ! 0 = PInt t
                      \<or> (\<exists>b. xs ! 0 = PBool b \<and> t = (if b then 1 else 0))
                      \<or> (\<exists>q. xs ! 0 = PFloat q
                              \<and> t = round_half_even (q * 1000000) div 1000000)))"
    by (intro allI) (rule snort_entry_Inr)
  from lab rnd ent per show ?thesis by (intro conjI)
qed

theorem convert_snort_last_wins_witness:
  "distinct (map fst [(''ftd-1'', [PList [PInt 1700000000, PStr ''3.5''], PList [PInt 1700000010, PStr ''4.1'']])])
   \<and> (''ftd-1'', [PList [PInt 1700000000, PStr ''3.5''], PList [PInt 1700000010, PStr ''4.1'']])
        \<in> set [(''ftd-1'', [PList [PInt 1700000000, PStr ''3.5''], PList [PInt 1700000010, PStr ''4.1'']])]
   \<and> strftime_HM 1700000000 = ''22:13''
   \<and> strftime_HM 1700000010 = ''22:13''
   \<and> (\<exists>series. map_of (convert_snort_metric_data
          [(''ftd-1'', [PList [PInt 1700000000, PStr ''3.5''], PList [PInt 1700000010, PStr ''4.1'']])]) ''ftd-1''
          = Some series
        \<and> map_of series ''22:13'' = Some (PStr ''4.1'') \<and> fst ` set series = {''22:13''})"
proof -
  define xs where "xs = [PList [PInt 1700000000, PStr ''3.5''], PList [PInt 1700000010, PStr ''4.1'']]"
  define raw where "raw = [(''ftd-1'', xs)]"
  have d: "distinct (map fst raw)" by (simp add: raw_def)
  have m: "(''ftd-1'', xs) \<in> set raw" by (simp add: raw_def)
  note lab = convert_snort_last_wins [OF d m, THEN conjunct1, rule_format]
  have l0: "strftime_HM 1700000000 = ''22:13''"
    using lab [where d = 19675 and h = 22 and m = 13 and s = 20] by simp
  have l1: "strftime_HM 1700000010 = ''22:13''"
    using lab [where d = 19675 and h = 22 and m = 13 and s = 30] by simp
  have e0: "snort_entry (xs ! 0) = Inr (''22:13'', PStr ''3.5'')"
    by (simp add: xs_def snort_entry_def in_datetime_range_def l0)
  have e1: "snort_entry (xs ! 1) = Inr (''22:13'', PStr ''4.1'')"
    by (simp add: xs_def snort_entry_def in_datetime_range_def l1)
  from convert_snort_last_wins [OF d m, THEN conjunct2, THEN conjunct2, THEN conjunct2]
  obtain series where
    s: "map_of (convert_snort_metric_data raw) ''ftd-1'' = Some series"
    and k: "fst ` set series = {l. \<exists>x \<in> set xs. \<exists>v. snort_entry x = Inr (l, v)}"
    and l: "\<forall>l v. map_of series l = Some v \<longleftrightarrow>
                 (\<exists>i < length xs. snort_entry (xs ! i) = Inr (l, v) \<and>
                    (\<forall>j. i < j \<and> j < length xs \<longrightarrow>
                       (\<forall>v'. snort_entry (xs ! j) \<noteq> Inr (l, v'))))"
    by (elim exE conjE)
  have "\<exists>i < length xs. snort_entry (xs ! i) = Inr (''22:13'', PStr ''4.1'') \<and>
          (\<forall>j. i < j \<and> j < length xs \<longrightarrow> (\<forall>v'. snort_entry (xs ! j) \<noteq> Inr (''22:13'', v')))"
    using e1 by (intro exI [of _ 1]) (simp add: xs_def)
  then have v: "map_of series ''22:13'' = Some (PStr ''4.1'')"
    by (simp only: l [rule_format])
  have "{l. \<exists>x \<in> set xs. \<exists>v. snort_entry x = Inr (l, v)} = {''22:13''}"
    using e0 e1 by (auto simp: xs_def)
  with k have ks: "fst ` set series = {''22:13''}" by simp
  have "\<exists>series. map_of (convert_snort_metric_data raw) ''ftd-1'' = Some series
        \<and> map_of series ''22:13'' = Some (PStr ''4.1'') \<and> fst ` set series = {''22:13''}"
    using s v ks by (intro exI [of _ series]) simp
  with d m l0 l1 show ?thesis unfolding raw_def xs_def by (intro conjI)
qed

section \<open>The worked scenario\<close>

text \<open>
  C4, as the specification states it: the samples at 1700000000 and 1700000060 both
  fall in minute 12:26 UTC, the normalised series is \<open>{"12:26": "4.1"}\<close> and its
  average is 4.1. The statement fails: 1700000000 seconds after the epoch is 22:13:20
  UTC.
\<close>

theorem scenario_12_26_counterexample:
  "\<not> (strftime_HM 1700000000 = ''12:26'' \<and> strftime_HM 1700000060 = ''12:26''
      \<and> convert_snort_metric_data
           [(''ftd-1'', [PList [PInt 1700000000, PStr ''3.5''], PList [PInt 1700000060, PStr ''4.1'']])]
         = [(''ftd-1'', [(''12:26'', PStr ''4.1'')])]
      \<and> calculate_snort_avg [(''ftd-1'', [(''12:26'', PStr ''4.1'')])] = Inr [(''ftd-1'', PFloat (41 / 10))])"
  by (simp add: strftime_HM_def pad2_def digit_char_def)

text \<open>
  C4, amended. 1700000000 falls in minute 22:13 UTC and 1700000060 in minute 22:14, so
  the two samples bear different labels: \<open>convert_snort_metric_data\<close> yields
  \<open>{"22:13": "3.5", "22:14": "4.1"}\<close> for the device, and \<open>calculate_snort_avg\<close> over
  that series yields 3.8.
\<close>

theorem scenario_22_13:
  "strftime_HM 1700000000 = ''22:13'' \<and> strftime_HM 1700000060 = ''22:14''
   \<and> convert_snort_metric_data
        [(device, [PList [PInt 1700000000, PStr ''3.5''], PList [PInt 1700000060, PStr ''4.1'']])]
      = [(device, [(''22:13'', PStr ''3.5''), (''22:14'', PStr ''4.1'')])]
   \<and> calculate_snort_avg [(device, [(''22:13'', PStr ''3.5''), (''22:14'', PStr ''4.1'')])]
      = Inr [(device, PFloat (38 / 10))]"
proof -
  have a: "strftime_HM 1700000000 = ''22:13''" by (simp add: strftime_HM_def pad2_def digit_char_def)
  have b: "strftime_HM 1700000060 = ''22:14''" by (simp add: strftime_HM_def pad2_def digit_char_def)
  have c: "convert_snort_metric_data
        [(device, [PList [PInt 1700000000, PStr ''3.5''], PList [PInt 1700000060, PStr ''4.1'']])]
      = [(device, [(''22:13'', PStr ''3.5''), (''22:14'', PStr ''4.1'')])]"
    by (simp add: convert_snort_metric_data_def convert_device_def store_entry_def snort_entry_def
        in_datetime_range_def a b)
  have f1: "py_float_str ''3.5'' = Some (35 / 10)"
    by (simp add: py_float_str_def strip_def is_space_def parse_unsigned_def is_digit_def
        parse_exponent_def digits_val_def digit_val_def)
  have f2: "py_float_str ''4.1'' = Some (41 / 10)"
    by (simp add: py_float_str_def strip_def is_space_def parse_unsigned_def is_digit_def
        parse_exponent_def digits_val_def digit_val_def)
  have r: "round_half_even 38 = 38" by (simp add: round_half_even_def)
  have d: "calculate_snort_avg [(device, [(''22:13'', PStr ''3.5''), (''22:14'', PStr ''4.1'')])]
      = Inr [(device, PFloat (38 / 10))]"
    by (simp add: calculate_snort_avg_def snort_avg_of_def f1 f2 r)
  from a b c d show ?thesis by simp
qed


section \<open>Properties of the summary statistics\<close>

lemma normalise_all_skipped:
  "\<forall>x \<in> set xs. \<exists>e. entry x = Inl e \<Longrightarrow> normalise entry xs = []"
  by (induction xs rule: rev_induct) (auto simp: normalise_snoc add_entry_def, simp add: normalise_def)

lemma calc_loop_Inr:
  "calc_loop f m out = Inr r \<Longrightarrow> distinct (map fst m) \<Longrightarrow> (d, s) \<in> set m \<Longrightarrow>
   \<exists>v. f s = Inr v \<and> map_of r d = Some v"
proof (induction f m out rule: calc_loop.induct)
  case (1 f out)
  then show ?case by simp
next
  case (2 f device series rest out)
  from "2.prems"(1) obtain v where v: "f series = Inr v"
    and rest: "calc_loop f rest (AList.update device v out) = Inr r"
    by (auto split: sum.splits)
  show ?case
  proof (cases "(d, s) \<in> set rest")
    case True
    with "2.IH" [OF v rest] "2.prems"(2) show ?thesis by simp
  next
    case False
    with "2.prems"(3) have ds: "d = device" "s = series" by auto
    have notin: "device \<notin> fst ` set rest" using "2.prems"(2) by (auto simp: image_iff)
    have "\<And>out'. calc_loop f rest out' = Inr r \<Longrightarrow> device \<notin> fst ` set rest \<Longrightarrow>
            map_of r device = map_of out' device"
    proof (induction rest)
      case Nil
      then show ?case by simp
    next
      case (Cons p rest)
      obtain d' s' where p: "p = (d', s')" by (cases p)
      from Cons.prems(1) p obtain v' where "f s' = Inr v'"
        and "calc_loop f rest (AList.update d' v' out') = Inr r"
        by (auto split: sum.splits)
      with Cons.IH [of "AList.update d' v' out'"] Cons.prems(2) p show ?case
        by (simp add: AList.update_conv')
    qed
    from this [OF rest notin] v ds show ?thesis by (simp add: AList.update_conv')
  qed
qed

lemma calc_loop_Inl:
  "calc_loop f m out = Inl e \<Longrightarrow> \<exists>d s. (d, s) \<in> set m \<and> f s = Inl e"
proof (induction f m out rule: calc_loop.induct)
  case (1 f out)
  then show ?case by simp
next
  case (2 f device series rest out)
  show ?case
  proof (cases "f series")
    case (Inl e')
    with "2.prems" show ?thesis by auto
  next
    case (Inr v)
    with "2.prems" have "calc_loop f rest (AList.update device v out) = Inl e" by simp
    from "2.IH" [OF Inr this] show ?thesis by auto
  qed
qed

lemma calc_loop_total:
  "\<forall>(d, s) \<in> set m. \<exists>v. f s = Inr v \<Longrightarrow> \<exists>r. calc_loop f m out = Inr r"
  by (induction f m out rule: calc_loop.induct) auto

lemma snort_avg_of_empty: "snort_avg_of [] = Inr (PInt 0)"
  by (simp add: snort_avg_of_def)

lemma snort_max_of_empty: "snort_max_of [] = Inr (PInt 0)"
  by (simp add: snort_max_of_def)

lemma te_avg_of_empty: "te_avg_of [] = Inr (PInt 0)"
  by (simp add: te_avg_of_def)

lemma stat_of_empty_device:
  assumes f: "f [] = Inr (PInt 0)" and d: "distinct (map fst m)" and m: "(device, []) \<in> set m"
  shows "(\<forall>r. calc_loop f m [] = Inr r \<longrightarrow> map_of r device = Some (PInt 0))
       \<and> (\<forall>e. calc_loop f m [] = Inl e \<longrightarrow> (\<exists>d s. (d, s) \<in> set m \<and> s \<noteq> [] \<and> f s = Inl e))"
proof (intro conjI allI impI)
  fix r assume "calc_loop f m [] = Inr r"
  from calc_loop_Inr [OF this d m] f show "map_of r device = Some (PInt 0)" by simp
next
  fix e assume "calc_loop f m [] = Inl e"
  from calc_loop_Inl [OF this] obtain d s where "(d, s) \<in> set m" "f s = Inl e" by blast
  moreover from this f have "s \<noteq> []" by auto
  ultimately show "\<exists>d s. (d, s) \<in> set m \<and> s \<noteq> [] \<and> f s = Inl e" by blast
qed

text \<open>
  C2. For every device whose normalised series is empty, \<open>calculate_snort_avg\<close>,
  \<open>calculate_snort_max\<close> and \<open>calculate_te_avg\<close> store 0 for that device: the loop
  body yields 0 on the empty series without raising, every result dict of a call holds
  0 under the device, and when a call raises, the exception comes from the non-empty
  series of some device.
\<close>

theorem empty_series_statistic_zero:
  assumes "distinct (map fst m)" and "(device, []) \<in> set m"
  shows "snort_avg_of [] = Inr (PInt 0) \<and> snort_max_of [] = Inr (PInt 0) \<and> te_avg_of [] = Inr (PInt 0)
       \<and> (\<forall>r. calculate_snort_avg m = Inr r \<longrightarrow> map_of r device = Some (PInt 0))
       \<and> (\<forall>r. calculate_snort_max m = Inr r \<longrightarrow> map_of r device = Some (PInt 0))
       \<and> (\<forall>r. calculate_te_avg m = Inr r \<longrightarrow> map_of r device = Some (PInt 0))
       \<and> (\<forall>e. calculate_snort_avg m = Inl e \<longrightarrow>
            (\<exists>d s. (d, s) \<in> set m \<and> s \<noteq> [] \<and> snort_avg_of s = Inl e))
       \<and> (\<forall>e. calculate_snort_max m = Inl e \<longrightarrow>
            (\<exists>d s. (d, s) \<in> set m \<and> s \<noteq> [] \<and> snort_max_of s = Inl e))
       \<and> (\<forall>e. calculate_te_avg m = Inl e \<longrightarrow>
            (\<exists>d s. (d, s) \<in> set m \<and> s \<noteq> [] \<and> te_avg_of s = Inl e))"
  using stat_of_empty_device [of snort_avg_of, OF snort_avg_of_empty assms]
    stat_of_empty_device [of snort_max_of, OF snort_max_of_empty assms]
    stat_of_empty_device [of te_avg_of, OF te_avg_of_empty assms]
  by (simp add: calculate_snort_avg_def calculate_snort_max_def calculate_te_avg_def
      snort_avg_of_empty snort_max_of_empty te_avg_of_empty)

theorem empty_series_statistic_zero_witness:
  "distinct (map fst [(''ftd-1'', []), (''ftd-2'', [(''22:13'', PInt 4)])])
   \<and> (''ftd-1'', []) \<in> set [(''ftd-1'', []), (''ftd-2'', [(''22:13'', PInt 4)])]
   \<and> calculate_snort_avg [(''ftd-1'', []), (''ftd-2'', [(''22:13'', PInt 4)])]
       = Inr [(''ftd-1'', PInt 0), (''ftd-2'', PFloat 4)]
   \<and> map_of [(''ftd-1'', PInt 0), (''ftd-2'', PFloat 4)] ''ftd-1'' = Some (PInt 0)"
proof -
  let ?m = "[(''ftd-1'', []), (''ftd-2'', [(''22:13'', PInt 4)])]"
  have d: "distinct (map fst ?m)" by simp
  have m: "(''ftd-1'', []) \<in> set ?m" by simp
  have r: "round_half_even 40 = 40" by (simp add: round_half_even_def)
  have c: "calculate_snort_avg ?m = Inr [(''ftd-1'', PInt 0), (''ftd-2'', PFloat 4)]"
    by (simp add: calculate_snort_avg_def snort_avg_of_def r)
  from empty_series_statistic_zero [OF d m] c
  have "map_of [(''ftd-1'', PInt 0), (''ftd-2'', PFloat 4)] ''ftd-1'' = Some (PInt 0)" by blast
  with d m c show ?thesis by blast
qed

text \<open>
  C3 says that a record with a non-numeric metric value is skipped and the statistics
  are computed from the remaining records. At the series
  \<open>[[1700000000, "abc"], [1700000060, "4.1"]]\<close> the conversion keeps \<open>"abc"\<close> under its
  label (only the time stamp is converted inside the \<open>try\<close>), and \<open>calculate_snort_avg\<close>
  then raises \<open>ValueError\<close> at \<open>float("abc")\<close>: no average is produced.
\<close>

theorem non_numeric_value_aborts:
  "convert_snort_metric_data
     [(''ftd-1'', [PList [PInt 1700000000, PStr ''abc''], PList [PInt 1700000060, PStr ''4.1'']])]
     = [(''ftd-1'', [(''22:13'', PStr ''abc''), (''22:14'', PStr ''4.1'')])]
   \<and> calculate_snort_avg (convert_snort_metric_data
       [(''ftd-1'', [PList [PInt 1700000000, PStr ''abc''], PList [PInt 1700000060, PStr ''4.1'']])])
     = Inl ValueError"
proof -
  have c: "convert_snort_metric_data
     [(''ftd-1'', [PList [PInt 1700000000, PStr ''abc''], PList [PInt 1700000060, PStr ''4.1'']])]
     = [(''ftd-1'', [(''22:13'', PStr ''abc''), (''22:14'', PStr ''4.1'')])]"
    by (simp add: convert_snort_metric_data_def convert_device_def store_entry_def snort_entry_def
        in_datetime_range_def strftime_HM_def pad2_def digit_char_def)
  have f: "py_float_str ''abc'' = None"
    by (simp add: py_float_str_def strip_def is_space_def parse_unsigned_def is_digit_def)
  show ?thesis unfolding c by (simp add: calculate_snort_avg_def snort_avg_of_def f)
qed

section \<open>Properties of the network test conversion\<close>

lemma te_time_key_Inr:
  "te_time_key d = Inr k \<longleftrightarrow>
     (\<exists>s. d = PStr s \<and> 1 < length (py_split s)
          \<and> k = take (length (py_split s ! 1) - 3) (py_split s ! 1))"
  by (cases d) (auto simp: Let_def)

lemma py_getitem_str_Inr:
  "py_getitem_str data key = Inr v \<longleftrightarrow> (\<exists>fields. data = PDict fields \<and> map_of fields key = Some v)"
  by (cases data) (auto split: option.splits)

lemma te_entry_Inr:
  "te_entry data = Inr (k, v) \<longleftrightarrow>
     (\<exists>fields s a l j. data = PDict fields \<and> map_of fields ''date'' = Some (PStr s)
        \<and> 1 < length (py_split s)
        \<and> k = take (length (py_split s ! 1) - 3) (py_split s ! 1)
        \<and> map_of fields ''avgLatency'' = Some a \<and> map_of fields ''loss'' = Some l
        \<and> map_of fields ''jitter'' = Some j \<and> v = PList [a, l, j])"
  (is "?L \<longleftrightarrow> ?R")
proof
  assume ?L
  then obtain d a l j where d: "py_getitem_str data ''date'' = Inr d"
    and k: "te_time_key d = Inr k"
    and a: "py_getitem_str data ''avgLatency'' = Inr a"
    and l: "py_getitem_str data ''loss'' = Inr l"
    and j: "py_getitem_str data ''jitter'' = Inr j"
    and v: "v = PList [a, l, j]"
    unfolding te_entry_def by (auto split: sum.splits)
  from d obtain fields where f: "data = PDict fields" "map_of fields ''date'' = Some d"
    unfolding py_getitem_str_Inr by blast
  from k obtain s where s: "d = PStr s" "1 < length (py_split s)"
    "k = take (length (py_split s ! 1) - 3) (py_split s ! 1)"
    unfolding te_time_key_Inr by blast
  from a l j f(1) have "map_of fields ''avgLatency'' = Some a" "map_of fields ''loss'' = Some l"
    "map_of fields ''jitter'' = Some j"
    unfolding py_getitem_str_Inr by auto
  with f s v show ?R by blast
next
  assume ?R
  then show ?L by (auto simp: te_entry_def Let_def)
qed

subsection \<open>Words of a date string\<close>

lemma is_space_iff:
  "is_space c \<longleftrightarrow>
     c \<in> {CHR 0x09, CHR 0x0A, CHR 0x0B, CHR 0x0C, CHR 0x0D, CHR 0x1C, CHR 0x1D, CHR 0x1E,
           CHR 0x1F, CHR 0x20, CHR 0x85, CHR 0xA0}"
  by (simp add: is_space_def)

lemma split_ws_spaces:
  "\<forall>c \<in> set pre. is_space c \<Longrightarrow> split_ws [] (pre @ s) = split_ws [] s"
  by (induction pre) auto

lemma split_ws_word:
  "\<forall>c \<in> set D. \<not> is_space c \<Longrightarrow> split_ws w (D @ s) = split_ws (w @ D) s"
  by (induction D arbitrary: w) auto

lemma split_ws_word_end:
  assumes "w \<noteq> []" and "rest = [] \<or> is_space (hd rest)"
  shows "split_ws w rest = w # split_ws [] rest"
  using assms by (cases rest) auto

lemma py_split_words:
  assumes "\<forall>c \<in> set pre. is_space c" and "D \<noteq> []" and "\<forall>c \<in> set D. \<not> is_space c"
    and "sp \<noteq> []" and "\<forall>c \<in> set sp. is_space c" and "T \<noteq> []" and "\<forall>c \<in> set T. \<not> is_space c"
    and "rest = [] \<or> is_space (hd rest)"
  shows "py_split (pre @ D @ sp @ T @ rest) = D # T # split_ws [] rest"
proof -
  have "py_split (pre @ D @ sp @ T @ rest) = split_ws [] (D @ sp @ T @ rest)"
    unfolding py_split_def by (rule split_ws_spaces [OF assms(1)])
  also have "\<dots> = split_ws D (sp @ T @ rest)"
    using split_ws_word [OF assms(3), of "[]"] by simp
  also have "\<dots> = D # split_ws [] (sp @ T @ rest)"
    using assms(4,5) by (intro split_ws_word_end [OF assms(2)]) (cases sp, auto)
  also have "split_ws [] (sp @ T @ rest) = split_ws [] (T @ rest)"
    by (rule split_ws_spaces [OF assms(5)])
  also have "\<dots> = split_ws T rest"
    using split_ws_word [OF assms(7), of "[]"] by simp
  also have "\<dots> = T # split_ws [] rest"
    by (rule split_ws_word_end [OF assms(6,8)])
  finally show ?thesis .
qed

lemma split_ws_drop_spaces: "split_ws [] s = split_ws [] (dropWhile is_space s)"
proof -
  have "\<forall>c \<in> set (takeWhile is_space s). is_space c" by (auto dest: set_takeWhileD)
  from split_ws_spaces [OF this, of "dropWhile is_space s"] show ?thesis by simp
qed

lemma split_ws_first_word:
  assumes "s \<noteq> []" and "\<not> is_space (hd s)"
  shows "split_ws [] s = takeWhile (\<lambda>c. \<not> is_space c) s
                          # split_ws [] (dropWhile (\<lambda>c. \<not> is_space c) s)"
proof -
  let ?w = "takeWhile (\<lambda>c. \<not> is_space c) s" and ?r = "dropWhile (\<lambda>c. \<not> is_space c) s"
  have w: "?w \<noteq> []" using assms by (cases s) auto
  have nw: "\<forall>c \<in> set ?w. \<not> is_space c" by (auto dest: set_takeWhileD)
  have r: "?r = [] \<or> is_space (hd ?r)" using hd_dropWhile [of "\<lambda>c. \<not> is_space c" s] by auto
  have "split_ws [] s = split_ws [] (?w @ ?r)" by simp
  also have "\<dots> = split_ws ?w ?r" using split_ws_word [OF nw, of "[]" ?r] by simp
  also have "\<dots> = ?w # split_ws [] ?r" by (rule split_ws_word_end [OF w r])
  finally show ?thesis .
qed

lemma split_ws_words:
  "split_ws [] s =
     (if dropWhile is_space s = [] then []
      else takeWhile (\<lambda>c. \<not> is_space c) (dropWhile is_space s)
           # split_ws [] (dropWhile (\<lambda>c. \<not> is_space c) (dropWhile is_space s)))"
proof (cases "dropWhile is_space s = []")
  case True
  have "split_ws [] (dropWhile is_space s) = []" by (simp add: True)
  with split_ws_drop_spaces [of s] have "split_ws [] s = []" by (simp only:)
  then show ?thesis by (simp add: True)
next
  case False
  have "\<not> is_space (hd (dropWhile is_space s))" using False hd_dropWhile by blast
  from split_ws_first_word [OF False this] show ?thesis
    using False split_ws_drop_spaces [of s] by simp
qed

lemma py_split_second:
  "(1 < length (py_split s) \<longleftrightarrow>
      takeWhile (\<lambda>c. \<not> is_space c)
        (dropWhile is_space (dropWhile (\<lambda>c. \<not> is_space c) (dropWhile is_space s))) \<noteq> [])
   \<and> (1 < length (py_split s) \<longrightarrow>
      py_split s ! 1 =
      takeWhile (\<lambda>c. \<not> is_space c)
        (dropWhile is_space (dropWhile (\<lambda>c. \<not> is_space c) (dropWhile is_space s))))"
proof -
  define s1 where "s1 = dropWhile is_space s"
  define w1 where "w1 = takeWhile (\<lambda>c. \<not> is_space c) s1"
  define s2 where "s2 = dropWhile (\<lambda>c. \<not> is_space c) s1"
  define s3 where "s3 = dropWhile is_space s2"
  define w2 where "w2 = takeWhile (\<lambda>c. \<not> is_space c) s3"
  define r where "r = split_ws [] (dropWhile (\<lambda>c. \<not> is_space c) s3)"
  have a: "py_split s = (if s1 = [] then [] else w1 # split_ws [] s2)"
    unfolding py_split_def s1_def w1_def s2_def by (rule split_ws_words)
  have b: "split_ws [] s2 = (if s3 = [] then [] else w2 # r)"
    unfolding s3_def w2_def r_def by (rule split_ws_words)
  have c: "w2 \<noteq> []" if "s3 \<noteq> []"
  proof -
    from that have "\<not> is_space (hd s3)" unfolding s3_def by (rule hd_dropWhile)
    with that show ?thesis unfolding w2_def by (cases s3) simp_all
  qed
  have d: "s3 = []" if "s1 = []" using that unfolding s3_def s2_def by simp
  have e: "w2 = []" if "s3 = []" using that unfolding w2_def by simp
  have "(1 < length (py_split s) \<longleftrightarrow> w2 \<noteq> []) \<and> (1 < length (py_split s) \<longrightarrow> py_split s ! 1 = w2)"
  proof (cases "s3 = []")
    case True
    then have "length (py_split s) \<le> 1" unfolding a b by simp
    with e [OF True] show ?thesis by simp
  next
    case False
    then have "s1 \<noteq> []" using d by blast
    then have "py_split s = w1 # w2 # r" unfolding a b using False by simp
    with c [OF False] show ?thesis by simp
  qed
  then show ?thesis unfolding w2_def s3_def s2_def s1_def .
qed

lemma py_split_second_word:
  "1 < length (py_split s) \<and> py_split s ! 1 = T \<longleftrightarrow>
     (\<exists>pre D sp rest. s = pre @ D @ sp @ T @ rest
        \<and> (\<forall>c \<in> set pre. is_space c)
        \<and> D \<noteq> [] \<and> (\<forall>c \<in> set D. \<not> is_space c)
        \<and> sp \<noteq> [] \<and> (\<forall>c \<in> set sp. is_space c)
        \<and> T \<noteq> [] \<and> (\<forall>c \<in> set T. \<not> is_space c)
        \<and> (rest = [] \<or> is_space (hd rest)))"
  (is "?L \<longleftrightarrow> ?R")
proof
  assume ?R
  then obtain pre D sp rest where s: "s = pre @ D @ sp @ T @ rest"
    and c: "\<forall>c \<in> set pre. is_space c" "D \<noteq> []" "\<forall>c \<in> set D. \<not> is_space c"
      "sp \<noteq> []" "\<forall>c \<in> set sp. is_space c" "T \<noteq> []" "\<forall>c \<in> set T. \<not> is_space c"
      "rest = [] \<or> is_space (hd rest)"
    by (elim exE conjE)
  have "py_split s = D # T # split_ws [] rest" unfolding s by (rule py_split_words [OF c])
  then show ?L by simp
next
  assume l: ?L
  define s1 where "s1 = dropWhile is_space s"
  define s2 where "s2 = dropWhile (\<lambda>c. \<not> is_space c) s1"
  define s3 where "s3 = dropWhile is_space s2"
  define pre where "pre = takeWhile is_space s"
  define D where "D = takeWhile (\<lambda>c. \<not> is_space c) s1"
  define sp where "sp = takeWhile is_space s2"
  define rest where "rest = dropWhile (\<lambda>c. \<not> is_space c) s3"
  have ps: "(1 < length (py_split s) \<longleftrightarrow> takeWhile (\<lambda>c. \<not> is_space c) s3 \<noteq> [])
      \<and> (1 < length (py_split s) \<longrightarrow> py_split s ! 1 = takeWhile (\<lambda>c. \<not> is_space c) s3)"
    unfolding s3_def s2_def s1_def by (rule py_split_second)
  have w: "takeWhile (\<lambda>c. \<not> is_space c) s3 \<noteq> []"
    using ps [THEN conjunct1] l [THEN conjunct1] by (simp only:)
  have t: "T = takeWhile (\<lambda>c. \<not> is_space c) s3"
    using ps [THEN conjunct2] l by (simp only:)
  have s3: "s3 \<noteq> []" using w by (cases s3) simp_all
  have s2: "s2 \<noteq> []" using s3 unfolding s3_def by (cases s2) simp_all
  have s1: "s1 \<noteq> []" using s2 unfolding s2_def by (cases s1) simp_all
  have e1: "s = pre @ s1" unfolding pre_def s1_def by simp
  have e2: "s1 = D @ s2" unfolding D_def s2_def by simp
  have e3: "s2 = sp @ s3" unfolding sp_def s3_def by simp
  have e4: "s3 = T @ rest" unfolding t rest_def by simp
  have eq: "s = pre @ D @ sp @ T @ rest"
    by (simp only: e1 [symmetric] e2 [symmetric] e3 [symmetric] e4 [symmetric])
  have p1: "\<forall>c \<in> set pre. is_space c" unfolding pre_def by (auto dest: set_takeWhileD)
  have h1: "\<not> is_space (hd s1)" using s1 unfolding s1_def by (rule hd_dropWhile)
  have d1: "D \<noteq> []" using s1 h1 unfolding D_def by (cases s1) simp_all
  have d2: "\<forall>c \<in> set D. \<not> is_space c" unfolding D_def by (auto dest: set_takeWhileD)
  have "\<not> \<not> is_space (hd s2)" using s2 unfolding s2_def by (rule hd_dropWhile)
  then have h2: "is_space (hd s2)" by simp
  have sp1: "sp \<noteq> []" using s2 h2 unfolding sp_def by (cases s2) simp_all
  have sp2: "\<forall>c \<in> set sp. is_space c" unfolding sp_def by (auto dest: set_takeWhileD)
  have t1: "T \<noteq> []" using w unfolding t .
  have t2: "\<forall>c \<in> set T. \<not> is_space c" unfolding t by (auto dest: set_takeWhileD)
  have r: "rest = [] \<or> is_space (hd rest)"
  proof (cases "rest = []")
    case True
    then show ?thesis by simp
  next
    case False
    then have "\<not> \<not> is_space (hd rest)" unfolding rest_def by (rule hd_dropWhile)
    then show ?thesis by simp
  qed
  show ?R
    apply (rule exI [of _ pre], rule exI [of _ D], rule exI [of _ sp], rule exI [of _ rest])
    using eq p1 d1 d2 sp1 sp2 t1 t2 r by - (intro conjI; assumption)
qed

lemma te_entry_words:
  "te_entry data = Inr (k, v) \<longleftrightarrow>
     (\<exists>fields pre D sp T rest a l j.
        data = PDict fields
        \<and> map_of fields ''date'' = Some (PStr (pre @ D @ sp @ T @ rest))
        \<and> (\<forall>c \<in> set pre. is_space c)
        \<and> D \<noteq> [] \<and> (\<forall>c \<in> set D. \<not> is_space c)
        \<and> sp \<noteq> [] \<and> (\<forall>c \<in> set sp. is_space c)
        \<and> T \<noteq> [] \<and> (\<forall>c \<in> set T. \<not> is_space c)
        \<and> (rest = [] \<or> is_space (hd rest))
        \<and> k = take (length T - 3) T
        \<and> map_of fields ''avgLatency'' = Some a \<and> map_of fields ''loss'' = Some l
        \<and> map_of fields ''jitter'' = Some j \<and> v = PList [a, l, j])"
  (is "?L \<longleftrightarrow> ?R")
proof
  assume ?L
  then obtain fs s a l j where f: "data = PDict fs" "map_of fs ''date'' = Some (PStr s)"
    and two: "1 < length (py_split s)" and k: "k = take (length (py_split s ! 1) - 3) (py_split s ! 1)"
    and v: "map_of fs ''avgLatency'' = Some a" "map_of fs ''loss'' = Some l"
      "map_of fs ''jitter'' = Some j" "v = PList [a, l, j]"
    unfolding te_entry_Inr by (elim exE conjE)
  define T where "T = py_split s ! 1"
  from two have "1 < length (py_split s) \<and> py_split s ! 1 = T" by (simp add: T_def)
  then obtain pre D sp rest where s: "s = pre @ D @ sp @ T @ rest"
    and c: "\<forall>c \<in> set pre. is_space c" "D \<noteq> []" "\<forall>c \<in> set D. \<not> is_space c"
      "sp \<noteq> []" "\<forall>c \<in> set sp. is_space c" "T \<noteq> []" "\<forall>c \<in> set T. \<not> is_space c"
      "rest = [] \<or> is_space (hd rest)"
    unfolding py_split_second_word by (elim exE conjE)
  from k have k': "k = take (length T - 3) T" by (simp add: T_def)
  from f(2) have d: "map_of fs ''date'' = Some (PStr (pre @ D @ sp @ T @ rest))"
    unfolding s .
  show ?R
    apply (rule exI [of _ fs], rule exI [of _ pre], rule exI [of _ D], rule exI [of _ sp],
        rule exI [of _ T], rule exI [of _ rest], rule exI [of _ a], rule exI [of _ l],
        rule exI [of _ j])
    using f(1) d c k' v by - (intro conjI; assumption)
next
  assume ?R
  then obtain fs pre D sp T rest a l j where f: "data = PDict fs"
    and d: "map_of fs ''date'' = Some (PStr (pre @ D @ sp @ T @ rest))"
    and c: "\<forall>c \<in> set pre. is_space c" "D \<noteq> []" "\<forall>c \<in> set D. \<not> is_space c"
      "sp \<noteq> []" "\<forall>c \<in> set sp. is_space c" "T \<noteq> []" "\<forall>c \<in> set T. \<not> is_space c"
      "rest = [] \<or> is_space (hd rest)"
    and k: "k = take (length T - 3) T"
    and v: "map_of fs ''avgLatency'' = Some a" "map_of fs ''loss'' = Some l"
      "map_of fs ''jitter'' = Some j" "v = PList [a, l, j]"
    by (elim exE conjE)
  have p: "py_split (pre @ D @ sp @ T @ rest) = D # T # split_ws [] rest"
    by (rule py_split_words [OF c])
  have p1: "1 < length (py_split (pre @ D @ sp @ T @ rest))" unfolding p by simp
  have p2: "k = take (length (py_split (pre @ D @ sp @ T @ rest) ! 1) - 3)
           (py_split (pre @ D @ sp @ T @ rest) ! 1)"
    unfolding p using k by simp
  show ?L
    unfolding te_entry_Inr
    apply (rule exI [of _ fs], rule exI [of _ "pre @ D @ sp @ T @ rest"], rule exI [of _ a],
        rule exI [of _ l], rule exI [of _ j])
    using f d p1 p2 v by - (intro conjI; assumption)
qed

lemma te_entry_date_time:
  assumes "map_of fs ''date'' = Some (PStr (D @ '' '' @ hm @ sec))"
    and "D \<noteq> []" and "\<forall>c \<in> set (D @ hm @ sec). \<not> is_space c" and "length sec = 3"
    and "map_of fs ''avgLatency'' = Some a" and "map_of fs ''loss'' = Some l"
    and "map_of fs ''jitter'' = Some j"
  shows "te_entry (PDict fs) = Inr (hm, PList [a, l, j])"
proof -
  have sec: "sec \<noteq> []" using assms(4) by (cases sec) simp_all
  have c: "\<forall>c \<in> set ([] :: string). is_space c" "D \<noteq> []" "\<forall>c \<in> set D. \<not> is_space c"
      "'' '' \<noteq> []" "\<forall>c \<in> set '' ''. is_space c" "hm @ sec \<noteq> []"
      "\<forall>c \<in> set (hm @ sec). \<not> is_space c" "([] :: string) = [] \<or> is_space (hd [])"
    using assms(2,3) sec by (simp_all add: is_space_def)
  have "py_split ([] @ D @ '' '' @ (hm @ sec) @ []) = D # (hm @ sec) # split_ws [] []"
    by (rule py_split_words [OF c])
  then have p: "py_split (D @ '' '' @ hm @ sec) = [D, hm @ sec]" by simp
  have p1: "1 < length (py_split (D @ '' '' @ hm @ sec))" unfolding p by simp
  have p2: "hm = take (length (py_split (D @ '' '' @ hm @ sec) ! 1) - 3)
                   (py_split (D @ '' '' @ hm @ sec) ! 1)"
    unfolding p using assms(4) by simp
  have v: "PList [a, l, j] = PList [a, l, j]" by (rule refl)
  have d: "PDict fs = PDict fs" by (rule refl)
  show ?thesis
    unfolding te_entry_Inr
    apply (rule exI [of _ fs], rule exI [of _ "D @ '' '' @ hm @ sec"], rule exI [of _ a],
        rule exI [of _ l], rule exI [of _ j])
    using d assms(1) p1 p2 assms(5,6,7) v by - (intro conjI; assumption)
qed

text \<open>
  C9. The white space that \<open>split()\<close> cuts at is the twelve characters listed. A raw TE
  record yields an entry exactly when it is a dict with the fields \<open>avgLatency\<close>, \<open>loss\<close>
  and \<open>jitter\<close> whose \<open>date\<close> is a string made of optional white space, a first word, white
  space, a second word \<open>T\<close> (the time component) and either nothing more or more text that
  begins with white space; the key is then \<open>T\<close> without its last three characters and the
  value is the triple of the three fields. In particular a record dated \<open>D hh:mm:ss\<close> is
  kept and keyed by \<open>hh:mm\<close>. \<open>convert_te_test_data\<close> stores, for every device, exactly
  the entries of such records (the last record of a key wins); every other record is
  skipped and the conversion goes on.
\<close>

theorem convert_te_keys_by_time:
  assumes "distinct (map fst raw)" and "(device, records) \<in> set raw"
  shows "(\<forall>c. is_space c \<longleftrightarrow>
            c \<in> {CHR 0x09, CHR 0x0A, CHR 0x0B, CHR 0x0C, CHR 0x0D, CHR 0x1C, CHR 0x1D, CHR 0x1E,
                  CHR 0x1F, CHR 0x20, CHR 0x85, CHR 0xA0})
       \<and> (\<forall>data k v. te_entry data = Inr (k, v) \<longleftrightarrow>
            (\<exists>fields pre D sp T rest a l j.
               data = PDict fields
               \<and> map_of fields ''date'' = Some (PStr (pre @ D @ sp @ T @ rest))
               \<and> (\<forall>c \<in> set pre. is_space c)
               \<and> D \<noteq> [] \<and> (\<forall>c \<in> set D. \<not> is_space c)
               \<and> sp \<noteq> [] \<and> (\<forall>c \<in> set sp. is_space c)
               \<and> T \<noteq> [] \<and> (\<forall>c \<in> set T. \<not> is_space c)
               \<and> (rest = [] \<or> is_space (hd rest))
               \<and> k = take (length T - 3) T
               \<and> map_of fields ''avgLatency'' = Some a \<and> map_of fields ''loss'' = Some l
               \<and> map_of fields ''jitter'' = Some j \<and> v = PList [a, l, j]))
       \<and> (\<forall>fields D hm sec a l j.
            map_of fields ''date'' = Some (PStr (D @ '' '' @ hm @ sec))
            \<and> D \<noteq> [] \<and> (\<forall>c \<in> set (D @ hm @ sec). \<not> is_space c) \<and> length sec = 3
            \<and> map_of fields ''avgLatency'' = Some a \<and> map_of fields ''loss'' = Some l
            \<and> map_of fields ''jitter'' = Some j
            \<longrightarrow> te_entry (PDict fields) = Inr (hm, PList [a, l, j]))
       \<and> (\<exists>series. map_of (convert_te_test_data raw) device = Some series
             \<and> fst ` set series = {k. \<exists>x \<in> set records. \<exists>v. te_entry x = Inr (k, v)}
             \<and> (\<forall>k v. map_of series k = Some v \<longleftrightarrow>
                   (\<exists>i < length records. te_entry (records ! i) = Inr (k, v) \<and>
                      (\<forall>j. i < j \<and> j < length records \<longrightarrow>
                         (\<forall>v'. te_entry (records ! j) \<noteq> Inr (k, v'))))))"
proof -
  have sp: "\<forall>c. is_space c \<longleftrightarrow>
            c \<in> {CHR 0x09, CHR 0x0A, CHR 0x0B, CHR 0x0C, CHR 0x0D, CHR 0x1C, CHR 0x1D, CHR 0x1E,
                  CHR 0x1F, CHR 0x20, CHR 0x85, CHR 0xA0}"
    by (intro allI) (rule is_space_iff)
  have ent: "\<forall>data k v. te_entry data = Inr (k, v) \<longleftrightarrow>
            (\<exists>fields pre D sp T rest a l j.
               data = PDict fields
               \<and> map_of fields ''date'' = Some (PStr (pre @ D @ sp @ T @ rest))
               \<and> (\<forall>c \<in> set pre. is_space c)
               \<and> D \<noteq> [] \<and> (\<forall>c \<in> set D. \<not> is_space c)
               \<and> sp \<noteq> [] \<and> (\<forall>c \<in> set sp. is_space c)
               \<and> T \<noteq> [] \<and> (\<forall>c \<in> set T. \<not> is_space c)
               \<and> (rest = [] \<or> is_space (hd rest))
               \<and> k = take (length T - 3) T
               \<and> map_of fields ''avgLatency'' = Some a \<and> map_of fields ''loss'' = Some l
               \<and> map_of fields ''jitter'' = Some j \<and> v = PList [a, l, j])"
    by (intro allI) (rule te_entry_words)
  have dt: "\<forall>fields D hm sec a l j.
            map_of fields ''date'' = Some (PStr (D @ '' '' @ hm @ sec))
            \<and> D \<noteq> [] \<and> (\<forall>c \<in> set (D @ hm @ sec). \<not> is_space c) \<and> length sec = 3
            \<and> map_of fields ''avgLatency'' = Some a \<and> map_of fields ''loss'' = Some l
            \<and> map_of fields ''jitter'' = Some j
            \<longrightarrow> te_entry (PDict fields) = Inr (hm, PList [a, l, j])"
    by (intro allI impI, elim conjE) (rule te_entry_date_time)
  define series where "series = normalise te_entry records"
  have s: "map_of (convert_te_test_data raw) device = Some series"
    unfolding convert_te_test_data_def series_def
    by (simp add: map_of_fold_convert map_of_rev_distinct [OF assms])
  have ks: "fst ` set series = {k. \<exists>x \<in> set records. \<exists>v. te_entry x = Inr (k, v)}"
    unfolding series_def by (rule keys_normalise)
  have lw: "map_of series k = Some v \<longleftrightarrow>
              (\<exists>i < length records. te_entry (records ! i) = Inr (k, v) \<and>
                 (\<forall>j. i < j \<and> j < length records \<longrightarrow>
                    (\<forall>v'. te_entry (records ! j) \<noteq> Inr (k, v'))))" for k v
    unfolding series_def by (rule map_of_normalise_index)
  have per: "\<exists>series. map_of (convert_te_test_data raw) device = Some series
             \<and> fst ` set series = {k. \<exists>x \<in> set records. \<exists>v. te_entry x = Inr (k, v)}
             \<and> (\<forall>k v. map_of series k = Some v \<longleftrightarrow>
                   (\<exists>i < length records. te_entry (records ! i) = Inr (k, v) \<and>
                      (\<forall>j. i < j \<and> j < length records \<longrightarrow>
                         (\<forall>v'. te_entry (records ! j) \<noteq> Inr (k, v')))))"
    apply (rule exI [of _ series])
    apply (intro conjI allI)
      apply (rule s)
     apply (rule ks)
    apply (rule lw)
    done
  from sp ent dt per show ?thesis by (intro conjI)
qed

theorem convert_te_keys_by_time_witness:
  "distinct (map fst [(''ftd-1'', [PDict [(''date'', PStr ''2023-11-14 22:13:20''), (''avgLatency'', PInt 5),
                                          (''loss'', PInt 0), (''jitter'', PInt 1)], PDict [(''loss'', PInt 0)]])])
   \<and> (''ftd-1'', [PDict [(''date'', PStr ''2023-11-14 22:13:20''), (''avgLatency'', PInt 5),
                           (''loss'', PInt 0), (''jitter'', PInt 1)], PDict [(''loss'', PInt 0)]])
       \<in> set [(''ftd-1'', [PDict [(''date'', PStr ''2023-11-14 22:13:20''), (''avgLatency'', PInt 5),
                                   (''loss'', PInt 0), (''jitter'', PInt 1)], PDict [(''loss'', PInt 0)]])]
   \<and> te_entry (PDict [(''date'', PStr ''2023-11-14 22:13:20''), (''avgLatency'', PInt 5),
                       (''loss'', PInt 0), (''jitter'', PInt 1)])
       = Inr (''22:13'', PList [PInt 5, PInt 0, PInt 1])
   \<and> (\<exists>series. map_of (convert_te_test_data
           [(''ftd-1'', [PDict [(''date'', PStr ''2023-11-14 22:13:20''), (''avgLatency'', PInt 5),
                                (''loss'', PInt 0), (''jitter'', PInt 1)], PDict [(''loss'', PInt 0)]])]) ''ftd-1''
          = Some series
        \<and> fst ` set series = {''22:13''}
        \<and> map_of series ''22:13'' = Some (PList [PInt 5, PInt 0, PInt 1]))"
proof -
  define fs where "fs = [(''date'', PStr ''2023-11-14 22:13:20''), (''avgLatency'', PInt 5),
                    (''loss'', PInt 0), (''jitter'', PInt 1)]"
  define r0 where "r0 = PDict fs"
  define r1 where "r1 = PDict [(''loss'', PInt 0)]"
  define xs where "xs = [r0, r1]"
  define raw where "raw = [(''ftd-1'', xs)]"
  have d: "distinct (map fst raw)" by (simp add: raw_def)
  have m: "(''ftd-1'', xs) \<in> set raw" by (simp add: raw_def)
  note dt = convert_te_keys_by_time [OF d m, THEN conjunct2, THEN conjunct2, THEN conjunct1,
      rule_format]
  have pre: "map_of fs ''date'' = Some (PStr (''2023-11-14'' @ '' '' @ ''22:13'' @ '':20''))
      \<and> ''2023-11-14'' \<noteq> []
      \<and> (\<forall>c \<in> set (''2023-11-14'' @ ''22:13'' @ '':20''). \<not> is_space c)
      \<and> length '':20'' = 3
      \<and> map_of fs ''avgLatency'' = Some (PInt 5) \<and> map_of fs ''loss'' = Some (PInt 0)
      \<and> map_of fs ''jitter'' = Some (PInt 1)"
    by (simp add: fs_def is_space_def)
  have e0: "te_entry r0 = Inr (''22:13'', PList [PInt 5, PInt 0, PInt 1])"
    unfolding r0_def by (rule dt [OF pre])
  have e1: "te_entry r1 = Inl KeyError"
    by (simp add: r1_def te_entry_def)
  from convert_te_keys_by_time [OF d m, THEN conjunct2, THEN conjunct2, THEN conjunct2]
  obtain series where
    s: "map_of (convert_te_test_data raw) ''ftd-1'' = Some series"
    and k: "fst ` set series = {k. \<exists>x \<in> set xs. \<exists>v. te_entry x = Inr (k, v)}"
    and l: "\<forall>k v. map_of series k = Some v \<longleftrightarrow>
                 (\<exists>i < length xs. te_entry (xs ! i) = Inr (k, v) \<and>
                    (\<forall>j. i < j \<and> j < length xs \<longrightarrow>
                       (\<forall>v'. te_entry (xs ! j) \<noteq> Inr (k, v'))))"
    by (elim exE conjE)
  have "\<exists>i < length xs. te_entry (xs ! i) = Inr (''22:13'', PList [PInt 5, PInt 0, PInt 1]) \<and>
          (\<forall>j. i < j \<and> j < length xs \<longrightarrow> (\<forall>v'. te_entry (xs ! j) \<noteq> Inr (''22:13'', v')))"
  proof (intro exI [of _ 0] conjI allI impI)
    show "0 < length xs" by (simp add: xs_def)
    show "te_entry (xs ! 0) = Inr (''22:13'', PList [PInt 5, PInt 0, PInt 1])"
      by (simp add: xs_def e0)
    fix j v' assume "0 < j \<and> j < length xs"
    then have "j = 1" by (simp add: xs_def)
    then show "te_entry (xs ! j) \<noteq> Inr (''22:13'', v')" by (simp add: xs_def e1)
  qed
  then have v: "map_of series ''22:13'' = Some (PList [PInt 5, PInt 0, PInt 1])"
    by (simp only: l [rule_format])
  have "{k. \<exists>x \<in> set xs. \<exists>v. te_entry x = Inr (k, v)} = {''22:13''}"
    by (simp add: xs_def e0 e1)
  with k have ks: "fst ` set series = {''22:13''}" by simp
  have ex: "\<exists>series. map_of (convert_te_test_data raw) ''ftd-1'' = Some series
        \<and> fst ` set series = {''22:13''}
        \<and> map_of series ''22:13'' = Some (PList [PInt 5, PInt 0, PInt 1])"
    using s ks v by (intro exI [of _ series]) simp
  from d m e0 ex show ?thesis
    unfolding raw_def xs_def r0_def r1_def fs_def by (intro conjI)
qed

section \<open>Devices are kept by the conversions\<close>

text \<open>
  C10. The output of \<open>convert_snort_metric_data\<close> and of \<open>convert_te_test_data\<close> has
  exactly the device keys of the input. A device all of whose samples are skipped is
  present with an empty inner dict, and the statistics computed afterwards give it 0.
\<close>

theorem convert_keeps_device_keys:
  assumes "distinct (map fst raw)" and "(device, samples) \<in> set raw"
  shows "fst ` set (convert_snort_metric_data raw) = fst ` set raw
       \<and> fst ` set (convert_te_test_data raw) = fst ` set raw
       \<and> ((\<forall>x \<in> set samples. \<exists>e. snort_entry x = Inl e) \<longrightarrow>
            map_of (convert_snort_metric_data raw) device = Some []
            \<and> (\<forall>r. calculate_snort_avg (convert_snort_metric_data raw) = Inr r
                  \<longrightarrow> map_of r device = Some (PInt 0))
            \<and> (\<forall>r. calculate_snort_max (convert_snort_metric_data raw) = Inr r
                  \<longrightarrow> map_of r device = Some (PInt 0)))
       \<and> ((\<forall>x \<in> set samples. \<exists>e. te_entry x = Inl e) \<longrightarrow>
            map_of (convert_te_test_data raw) device = Some []
            \<and> (\<forall>r. calculate_te_avg (convert_te_test_data raw) = Inr r
                  \<longrightarrow> map_of r device = Some (PInt 0)))"
proof -
  have k1: "fst ` set (convert_snort_metric_data raw) = fst ` set raw"
    by (simp add: convert_snort_metric_data_def keys_fold_convert)
  have k2: "fst ` set (convert_te_test_data raw) = fst ` set raw"
    by (simp add: convert_te_test_data_def keys_fold_convert)
  have look: "\<And>entry. map_of (fold (convert_device entry) raw []) device = Some (normalise entry samples)"
    by (simp add: map_of_fold_convert map_of_rev_distinct [OF assms])
  have dist: "\<And>entry. distinct (map fst (fold (convert_device entry) raw []))"
    by (rule distinct_fold_convert) simp
  have zero: "\<And>entry f r. \<forall>x \<in> set samples. \<exists>e. entry x = Inl e \<Longrightarrow> f [] = Inr (PInt 0) \<Longrightarrow>
      calc_loop f (fold (convert_device entry) raw []) [] = Inr r \<Longrightarrow> map_of r device = Some (PInt 0)"
  proof -
    fix entry :: "pyval \<Rightarrow> error + (string \<times> pyval)" and f r
    assume sk: "\<forall>x \<in> set samples. \<exists>e. entry x = Inl e" and f: "f [] = Inr (PInt 0)"
      and c: "calc_loop f (fold (convert_device entry) raw []) [] = Inr r"
    from look [of entry] normalise_all_skipped [OF sk]
    have "(device, []) \<in> set (fold (convert_device entry) raw [])"
      by (auto dest: map_of_SomeD)
    from calc_loop_Inr [OF c dist this] f show "map_of r device = Some (PInt 0)" by simp
  qed
  show ?thesis
    using k1 k2 look [of snort_entry] look [of te_entry]
      zero [of snort_entry snort_avg_of] zero [of snort_entry snort_max_of] zero [of te_entry te_avg_of]
      normalise_all_skipped [of samples snort_entry] normalise_all_skipped [of samples te_entry]
    by (simp add: convert_snort_metric_data_def convert_te_test_data_def calculate_snort_avg_def
        calculate_snort_max_def calculate_te_avg_def snort_avg_of_empty snort_max_of_empty
        te_avg_of_empty)
qed

theorem convert_keeps_device_keys_witness:
  "distinct (map fst [(''ftd-1'', [PNone, PList [PStr ''x'', PStr ''1'']])])
   \<and> (''ftd-1'', [PNone, PList [PStr ''x'', PStr ''1'']]) \<in> set [(''ftd-1'', [PNone, PList [PStr ''x'', PStr ''1'']])]
   \<and> snort_entry PNone = Inl TypeError
   \<and> snort_entry (PList [PStr ''x'', PStr ''1'']) = Inl TypeError
   \<and> te_entry PNone = Inl TypeError
   \<and> te_entry (PList [PStr ''x'', PStr ''1'']) = Inl TypeError
   \<and> fst ` set (convert_snort_metric_data [(''ftd-1'', [PNone, PList [PStr ''x'', PStr ''1'']])]) = {''ftd-1''}
   \<and> map_of (convert_snort_metric_data [(''ftd-1'', [PNone, PList [PStr ''x'', PStr ''1'']])]) ''ftd-1'' = Some []
   \<and> map_of (convert_te_test_data [(''ftd-1'', [PNone, PList [PStr ''x'', PStr ''1'']])]) ''ftd-1'' = Some []
   \<and> calculate_snort_avg (convert_snort_metric_data [(''ftd-1'', [PNone, PList [PStr ''x'', PStr ''1'']])])
       = Inr [(''ftd-1'', PInt 0)]"
proof -
  define xs where "xs = [PNone, PList [PStr ''x'', PStr ''1'']]"
  define raw where "raw = [(''ftd-1'', xs)]"
  have d: "distinct (map fst raw)" by (simp add: raw_def)
  have m: "(''ftd-1'', xs) \<in> set raw" by (simp add: raw_def)
  have s1: "snort_entry PNone = Inl TypeError" by (simp add: snort_entry_def)
  have s2: "snort_entry (PList [PStr ''x'', PStr ''1'']) = Inl TypeError"
    by (simp add: snort_entry_def)
  have t1: "te_entry PNone = Inl TypeError" by (simp add: te_entry_def)
  have t2: "te_entry (PList [PStr ''x'', PStr ''1'']) = Inl TypeError" by (simp add: te_entry_def)
  have s: "\<forall>x \<in> set xs. \<exists>e. snort_entry x = Inl e" by (simp add: xs_def s1 s2)
  have t: "\<forall>x \<in> set xs. \<exists>e. te_entry x = Inl e" by (simp add: xs_def t1 t2)
  note th = convert_keeps_device_keys [OF d m]
  have k: "fst ` set (convert_snort_metric_data raw) = {''ftd-1''}"
    using th [THEN conjunct1] by (simp add: raw_def)
  have a: "map_of (convert_snort_metric_data raw) ''ftd-1'' = Some []"
    using th [THEN conjunct2, THEN conjunct2, THEN conjunct1] s by simp
  have b: "map_of (convert_te_test_data raw) ''ftd-1'' = Some []"
    using th [THEN conjunct2, THEN conjunct2, THEN conjunct2] t by simp
  have c: "calculate_snort_avg (convert_snort_metric_data raw) = Inr [(''ftd-1'', PInt 0)]"
    by (simp add: raw_def xs_def convert_snort_metric_data_def convert_device_def store_entry_def
        snort_entry_def calculate_snort_avg_def snort_avg_of_def)
  from d m s1 s2 t1 t2 k a b c show ?thesis
    unfolding raw_def xs_def by (intro conjI)
qed

section \<open>Re-authentication of the device/health client\<close>

text \<open>
  C5, as the specification states it: a 401 triggers exactly one re-authentication
  followed by exactly one retry, and every non-200 response reaches the caller as
  \<open>None\<close>, never as an exception. Against a platform that answers 401 to the \<open>GET\<close> and
  refuses the re-authentication, \<open>getData\<close> sends the \<open>GET\<close> and the \<open>POST\<close> and then
  leaves through \<open>sys.exit(-1)\<close>: there is no retry and no \<open>None\<close>.
\<close>

theorem fmc_getData_refused_counterexample:
  "status_code (refusing_server [GET ''https://fmc/api/fmc_config/v1/domain/d/devices/devicerecords'' None []]) = 401
   \<and> fmc_getData ''https://fmc/api/fmc_platform/v1'' refusing_server
        ''https://fmc/api/fmc_config/v1/domain/d/devices/devicerecords'' [] (fresh_client, [])
      = (Exits (- 1),
         (fresh_client,
          [GET ''https://fmc/api/fmc_config/v1/domain/d/devices/devicerecords'' None [],
           POST ''https://fmc/api/fmc_platform/v1/auth/generatetoken'']))
   \<and> fst (fmc_getData ''https://fmc/api/fmc_platform/v1'' refusing_server
        ''https://fmc/api/fmc_config/v1/domain/d/devices/devicerecords'' [] (fresh_client, []))
      \<noteq> Returns None"
  by (simp add: fmc_getData_def authRequest_def refusing_server_def fresh_client_def Let_def)

text \<open>
  C5, amended. A first response other than 401 causes no re-authentication and is
  returned as its text when its status is 200 and as \<open>None\<close> otherwise. A 401 triggers
  exactly one re-authentication. If that is refused (a status other than 204), the
  process exits with status -1 and nothing is retried. If it succeeds (204 with the
  three token headers), the same request is sent exactly once more, with the new
  access token, and the response to it is returned as its text when its status is 200
  and as \<open>None\<close> otherwise (also when it is a second 401): nothing is sent after it.
\<close>

theorem fmc_getData_reauth_once:
  "let sent1 = sent @ [GET get_url (headers self) params];
       sent2 = sent1 @ [POST (platform_url @ ''/auth/generatetoken'')]
   in (status_code (srv sent1) \<noteq> 401 \<longrightarrow>
         fmc_getData platform_url srv get_url params (self, sent)
         = (Returns (if status_code (srv sent1) = 200 then Some (body (srv sent1)) else None),
            (self, sent1)))
    \<and> (status_code (srv sent1) = 401 \<and> status_code (srv sent2) \<noteq> 204 \<longrightarrow>
         fmc_getData platform_url srv get_url params (self, sent) = (Exits (- 1), (self, sent2)))
    \<and> (\<forall>a r u. status_code (srv sent1) = 401 \<and> status_code (srv sent2) = 204
           \<and> header (srv sent2) ''X-auth-access-token'' = Some a
           \<and> header (srv sent2) ''X-auth-refresh-token'' = Some r
           \<and> header (srv sent2) ''DOMAIN_UUID'' = Some u \<longrightarrow>
         (let self' = self\<lparr>auth_token := Some a, refresh_token := Some r, global_UUID := Some u,
                            headers := Some [(''Content-Type'', ''application/json''),
                                             (''X-auth-access-token'', a)]\<rparr>;
              sent3 = sent2 @ [GET get_url (headers self') params]
          in fmc_getData platform_url srv get_url params (self, sent)
             = (Returns (if status_code (srv sent3) = 200 then Some (body (srv sent3)) else None),
                (self', sent3))))"
  by (simp add: fmc_getData_def authRequest_def Let_def text_if_ok_def)

theorem fmc_getData_reauth_once_witness:
  "status_code (expired_once_server [GET ''u'' None []]) = 401
   \<and> status_code (expired_once_server [GET ''u'' None [], POST ''h/auth/generatetoken'']) = 204
   \<and> header (expired_once_server [GET ''u'' None [], POST ''h/auth/generatetoken'']) ''X-auth-access-token'' = Some ''t2''
   \<and> header (expired_once_server [GET ''u'' None [], POST ''h/auth/generatetoken'']) ''X-auth-refresh-token'' = Some ''r2''
   \<and> header (expired_once_server [GET ''u'' None [], POST ''h/auth/generatetoken'']) ''DOMAIN_UUID'' = Some ''dom''
   \<and> fmc_getData ''h'' expired_once_server ''u'' [] (fresh_client, [])
      = (Returns (Some ''devices''),
         (\<lparr>headers = Some [(''Content-Type'', ''application/json''), (''X-auth-access-token'', ''t2'')],
           refresh_token = Some ''r2'', auth_token = Some ''t2'', global_UUID = Some ''dom''\<rparr>,
          [GET ''u'' None [], POST ''h/auth/generatetoken'',
           GET ''u'' (Some [(''Content-Type'', ''application/json''), (''X-auth-access-token'', ''t2'')]) []]))"
proof -
  have s1: "status_code (expired_once_server [GET ''u'' None []]) = 401"
    by (simp add: expired_once_server_def is_POST_def)
  have s2: "status_code (expired_once_server [GET ''u'' None [], POST ''h/auth/generatetoken'']) = 204"
    by (simp add: expired_once_server_def)
  have h1: "header (expired_once_server [GET ''u'' None [], POST ''h/auth/generatetoken'']) ''X-auth-access-token'' = Some ''t2''"
    by (simp add: expired_once_server_def header_def lower_def)
  have h2: "header (expired_once_server [GET ''u'' None [], POST ''h/auth/generatetoken'']) ''X-auth-refresh-token'' = Some ''r2''"
    by (simp add: expired_once_server_def header_def lower_def)
  have h3: "header (expired_once_server [GET ''u'' None [], POST ''h/auth/generatetoken'']) ''DOMAIN_UUID'' = Some ''dom''"
    by (simp add: expired_once_server_def header_def lower_def)
  have s3: "expired_once_server [GET ''u'' None [], POST ''h/auth/generatetoken'',
           GET ''u'' (Some [(''Content-Type'', ''application/json''), (''X-auth-access-token'', ''t2'')]) []]
        = \<lparr>status_code = 200, body = ''devices'', resp_headers = []\<rparr>"
    by (simp add: expired_once_server_def is_POST_def)
  have "fmc_getData ''h'' expired_once_server ''u'' [] (fresh_client, [])
      = (Returns (Some ''devices''),
         (\<lparr>headers = Some [(''Content-Type'', ''application/json''), (''X-auth-access-token'', ''t2'')],
           refresh_token = Some ''r2'', auth_token = Some ''t2'', global_UUID = Some ''dom''\<rparr>,
          [GET ''u'' None [], POST ''h/auth/generatetoken'',
           GET ''u'' (Some [(''Content-Type'', ''application/json''), (''X-auth-access-token'', ''t2'')]) []]))"
    using fmc_getData_reauth_once [of "[]" "''u''" fresh_client "[]" "''h''" expired_once_server]
      s1 s2 h1 h2 h3
    by (simp add: Let_def fresh_client_def s3)
  with s1 s2 h1 h2 h3 show ?thesis by (intro conjI)
qed

section \<open>Pagination of the network metrics\<close>

lemma py_contains_dict: "py_contains k (PDict d) = Inr (map_of d k \<noteq> None)"
  by (simp add: map_of_eq_None_iff image_iff) 

lemma has_metrics_page_ok:
  "page_ok p \<Longrightarrow> has_metrics p = Inr (metrics_field p \<noteq> None)"
  unfolding page_ok_def has_metrics_def metrics_field_def
  by (auto simp: py_contains_dict simp del: py_contains.simps
      split: pyval.splits option.splits bool.splits)

lemma add_page_metrics_page_ok:
  "page_ok p \<Longrightarrow> add_page_metrics p metrics = Inr (metrics @ page_metrics p)"
  unfolding add_page_metrics_def
  by (auto simp: has_metrics_page_ok page_ok_def metrics_field_def page_metrics_def
      split: pyval.splits option.splits bool.splits)

lemma next_cursor_none:
  "page_ok p \<Longrightarrow> cursor_field p = None \<Longrightarrow> next_cursor p = Inr None"
  unfolding page_ok_def next_cursor_def cursor_field_def
  by (auto simp: py_contains_dict simp del: py_contains.simps
      split: pyval.splits option.splits bool.splits)

lemma next_cursor_some:
  "page_ok p \<Longrightarrow> cursor_field p = Some (PStr u) \<Longrightarrow> next_cursor p = Inr (Some u)"
  unfolding page_ok_def next_cursor_def cursor_field_def
  by (auto simp: py_contains_dict simp del: py_contains.simps
      split: pyval.splits option.splits bool.splits)

lemma pages_loop_chain:
  "page_chain srv loads hs sent p ps \<Longrightarrow>
   pages_loop srv loads hs p metrics sent
   = Some (Inr (metrics @ concat (map page_metrics (p # ps))), sent @ cursor_requests hs p ps)"
proof (induction ps arbitrary: p sent metrics)
  case Nil
  then show ?case
    by (subst pages_loop.simps) (simp add: add_page_metrics_page_ok next_cursor_none)
next
  case (Cons q qs)
  from Cons.prems obtain u where ok: "page_ok p" and c: "cursor_field p = Some (PStr u)"
    and st: "status_code (srv (sent @ [GET u (Some hs) []])) = 200"
    and ld: "loads (body (srv (sent @ [GET u (Some hs) []]))) = Inr q"
    and ch: "page_chain srv loads hs (sent @ [GET u (Some hs) []]) q qs"
    by (auto split: option.splits pyval.splits)
  have g: "te_getData srv hs u [] sent
           = (Some (body (srv (sent @ [GET u (Some hs) []]))), sent @ [GET u (Some hs) []])"
    by (simp add: te_getData_def text_if_ok_def st Let_def)
  show ?case
    by (subst pages_loop.simps)
      (simp add: add_page_metrics_page_ok [OF ok] next_cursor_some [OF ok c] g loads_resp_def ld
        Cons.IH [OF ch] c)
qed

text \<open>
  C6. When the first request is answered with 200 and a well-formed first page:
  if that page has no \<open>net.metrics\<close> field, \<open>getTestData_NetworkE2E\<close> returns \<open>None\<close>;
  if it has one and the platform serves a chain of pages (of any length, three in the
  instance below), the call ends, it has requested exactly the cursors of the chain
  one after the other, and it returns the metrics of all pages concatenated in page
  order.
\<close>

theorem getTestData_follows_pages:
  assumes "sent' = sent @ [GET (base_url @ ''/net/metrics/'' @ show_int test_id) (Some hs)
                             [(''window'', PStr (show_int time_period @ ''s''))]]"
    and "status_code (srv sent') = 200" and "body (srv sent') \<noteq> []"
    and "loads (body (srv sent')) = Inr p" and "page_ok p"
  shows "(metrics_field p = None \<longrightarrow>
            getTestData_NetworkE2E srv loads hs base_url test_id time_period sent
            = Some (Inr None, sent'))
       \<and> (metrics_field p \<noteq> None \<and> page_chain srv loads hs sent' p ps \<longrightarrow>
            getTestData_NetworkE2E srv loads hs base_url test_id time_period sent
            = Some (Inr (Some (concat (map page_metrics (p # ps)))),
                    sent' @ cursor_requests hs p ps))"
proof -
  have g: "te_getData srv hs (base_url @ ''/net/metrics/'' @ show_int test_id)
             [(''window'', PStr (show_int time_period @ ''s''))] sent
           = (Some (body (srv sent')), sent')"
    using assms(1,2) by (simp add: te_getData_def text_if_ok_def Let_def)
  show ?thesis
    using assms(3,4) has_metrics_page_ok [OF assms(5)]
      pages_loop_chain [of srv loads hs sent' p ps "[]"]
    by (auto simp: getTestData_NetworkE2E_def g [simplified] Let_def)
qed


theorem getTestData_follows_pages_witness:
  "status_code (three_page_server
      [GET ''https://api.thousandeyes.com/v6/net/metrics/1234'' (Some [(''Accept'', ''application/json'')])
         [(''window'', PStr ''3600s'')]]) = 200
   \<and> page_chain three_page_server three_page_loads [(''Accept'', ''application/json'')]
        [GET ''https://api.thousandeyes.com/v6/net/metrics/1234'' (Some [(''Accept'', ''application/json'')])
           [(''window'', PStr ''3600s'')]]
        (te_page 1 (Some ''https://api.thousandeyes.com/v6/net/metrics/1234?page=2''))
        [te_page 2 (Some ''https://api.thousandeyes.com/v6/net/metrics/1234?page=3''), te_page 3 None]
   \<and> getTestData_NetworkE2E three_page_server three_page_loads [(''Accept'', ''application/json'')]
        ''https://api.thousandeyes.com/v6'' 1234 3600 []
      = Some (Inr (Some [PDict [(''avgLatency'', PInt 1)], PDict [(''avgLatency'', PInt 2)],
                         PDict [(''avgLatency'', PInt 3)]]),
              [GET ''https://api.thousandeyes.com/v6/net/metrics/1234'' (Some [(''Accept'', ''application/json'')])
                 [(''window'', PStr ''3600s'')],
               GET ''https://api.thousandeyes.com/v6/net/metrics/1234?page=2''
                 (Some [(''Accept'', ''application/json'')]) [],
               GET ''https://api.thousandeyes.com/v6/net/metrics/1234?page=3''
                 (Some [(''Accept'', ''application/json'')]) []])"
proof -
  define hs :: "(string \<times> string) list" where "hs = [(''Accept'', ''application/json'')]"
  define u1 where "u1 = ''https://api.thousandeyes.com/v6/net/metrics/1234''"
  define u2 where "u2 = ''https://api.thousandeyes.com/v6/net/metrics/1234?page=2''"
  define u3 where "u3 = ''https://api.thousandeyes.com/v6/net/metrics/1234?page=3''"
  define sent1 where "sent1 = [GET u1 (Some hs) [(''window'', PStr ''3600s'')]]"
  define p1 where "p1 = te_page 1 (Some u2)"
  define p2 where "p2 = te_page 2 (Some u3)"
  define p3 where "p3 = te_page 3 None"
  have n1: "show_int 1234 = ''1234''" by (simp add: show_int_def digit_char_def)
  have n2: "show_int 3600 = ''3600''" by (simp add: show_int_def digit_char_def)
  have a1: "sent1 = [] @ [GET (''https://api.thousandeyes.com/v6'' @ ''/net/metrics/'' @ show_int 1234)
                            (Some hs) [(''window'', PStr (show_int 3600 @ ''s''))]]"
    by (simp add: sent1_def u1_def n1 n2)
  have r1: "three_page_server sent1 = \<lparr>status_code = 200, body = ''page1'', resp_headers = []\<rparr>"
    by (simp add: three_page_server_def sent1_def u1_def)
  have r2: "three_page_server (sent1 @ [GET u2 (Some hs) []])
            = \<lparr>status_code = 200, body = ''page2'', resp_headers = []\<rparr>"
    by (simp add: three_page_server_def u2_def)
  have r3: "three_page_server (sent1 @ [GET u2 (Some hs) [], GET u3 (Some hs) []])
            = \<lparr>status_code = 200, body = ''page3'', resp_headers = []\<rparr>"
    by (simp add: three_page_server_def u3_def)
  have l1: "three_page_loads ''page1'' = Inr p1" by (simp add: three_page_loads_def p1_def u2_def)
  have l2: "three_page_loads ''page2'' = Inr p2" by (simp add: three_page_loads_def p2_def u3_def)
  have l3: "three_page_loads ''page3'' = Inr p3" by (simp add: three_page_loads_def p3_def)
  have ok: "page_ok p1" "page_ok p2" "page_ok p3"
    by (simp_all add: page_ok_def te_page_def p1_def p2_def p3_def)
  have c: "cursor_field p1 = Some (PStr u2)" "cursor_field p2 = Some (PStr u3)" "cursor_field p3 = None"
    by (simp_all add: cursor_field_def te_page_def p1_def p2_def p3_def)
  have m: "metrics_field p1 \<noteq> None" by (simp add: metrics_field_def te_page_def p1_def)
  have pm: "page_metrics p1 = [PDict [(''avgLatency'', PInt 1)]]"
    "page_metrics p2 = [PDict [(''avgLatency'', PInt 2)]]"
    "page_metrics p3 = [PDict [(''avgLatency'', PInt 3)]]"
    by (simp_all add: page_metrics_def metrics_field_def te_page_def p1_def p2_def p3_def)
  have ch: "page_chain three_page_server three_page_loads hs sent1 p1 [p2, p3]"
    by (simp add: ok c r2 r3 l2 l3)
  have s1: "status_code (three_page_server sent1) = 200" by (simp add: r1)
  have b1: "body (three_page_server sent1) \<noteq> []" by (simp add: r1)
  have ld: "three_page_loads (body (three_page_server sent1)) = Inr p1" by (simp add: r1 l1)
  from getTestData_follows_pages [where sent = "[]" and sent' = sent1 and hs = hs
      and base_url = "''https://api.thousandeyes.com/v6''" and test_id = 1234
      and time_period = 3600 and srv = three_page_server and loads = three_page_loads
      and p = p1 and ps = "[p2, p3]", OF a1 s1 b1 ld ok(1), THEN conjunct2] m ch
  have "getTestData_NetworkE2E three_page_server three_page_loads hs
          ''https://api.thousandeyes.com/v6'' 1234 3600 []
        = Some (Inr (Some (concat (map page_metrics [p1, p2, p3]))),
                sent1 @ cursor_requests hs p1 [p2, p3])"
    by simp
  then have res: "getTestData_NetworkE2E three_page_server three_page_loads hs
          ''https://api.thousandeyes.com/v6'' 1234 3600 []
        = Some (Inr (Some [PDict [(''avgLatency'', PInt 1)], PDict [(''avgLatency'', PInt 2)],
                           PDict [(''avgLatency'', PInt 3)]]),
                [GET u1 (Some hs) [(''window'', PStr ''3600s'')], GET u2 (Some hs) [],
                 GET u3 (Some hs) []])"
    by (simp add: pm c sent1_def)
  from s1 ch res show ?thesis
    unfolding sent1_def p1_def p2_def p3_def u1_def u2_def u3_def hs_def by (intro conjI)
qed

section \<open>The device list handed to the page\<close>

text \<open>
  When every device has a string id and a string name, the merge succeeds: the list
  handed on is sorted by name, has the length of the input, and every device in it
  carries the six derived fields, \<open>None\<close> where the mapping has nothing for the device.
\<close>

lemma attach_ok:
  assumes "map_of device ''id'' = Some (PStr i)"
  shows "\<exists>v. attach field mapping device = Inr (AList.update field v device)"
  using assms by (auto simp: attach_def split: option.splits)

lemma attach_no_data:
  assumes "map_of device ''id'' = Some (PStr i)"
    and "mapping = None \<or> (\<exists>m. mapping = Some m \<and> map_of m i = None)"
  shows "attach field mapping device = Inr (AList.update field PNone device)"
  using assms by (auto simp: attach_def split: option.splits)

lemma attach_data:
  assumes "map_of device ''id'' = Some (PStr i)" and "map_of m i = Some v"
  shows "attach field (Some m) device = Inr (AList.update field v device)"
  using assms by (auto simp: attach_def split: option.splits)

lemma merge_device_ok:
  assumes i: "map_of device ''id'' = Some (PStr i)"
  shows "\<exists>d'. merge_device A B C D E F device = Inr d'
           \<and> fst ` set d' = fst ` set device \<union> set derived_fields
           \<and> map_of d' ''name'' = map_of device ''name''"
proof -
  from attach_ok [OF i] obtain v1 where
    a1: "attach ''te_test_details'' (Some A) device = Inr (AList.update ''te_test_details'' v1 device)"
    by blast
  define d1 where "d1 = AList.update ''te_test_details'' v1 device"
  have i1: "map_of d1 ''id'' = Some (PStr i)" by (simp add: d1_def AList.update_conv' i)
  from attach_ok [OF i1] obtain v2 where
    a2: "attach ''snort_cpu_data'' (map_option as_values B) d1 = Inr (AList.update ''snort_cpu_data'' v2 d1)"
    by blast
  define d2 where "d2 = AList.update ''snort_cpu_data'' v2 d1"
  have i2: "map_of d2 ''id'' = Some (PStr i)" by (simp add: d2_def AList.update_conv' i1)
  from attach_ok [OF i2] obtain v3 where
    a3: "attach ''snort_cpu_avg'' C d2 = Inr (AList.update ''snort_cpu_avg'' v3 d2)"
    by blast
  define d3 where "d3 = AList.update ''snort_cpu_avg'' v3 d2"
  have i3: "map_of d3 ''id'' = Some (PStr i)" by (simp add: d3_def AList.update_conv' i2)
  from attach_ok [OF i3] obtain v4 where
    a4: "attach ''snort_cpu_max'' D d3 = Inr (AList.update ''snort_cpu_max'' v4 d3)"
    by blast
  define d4 where "d4 = AList.update ''snort_cpu_max'' v4 d3"
  have i4: "map_of d4 ''id'' = Some (PStr i)" by (simp add: d4_def AList.update_conv' i3)
  from attach_ok [OF i4] obtain v5 where
    a5: "attach ''te_test_data'' (Some (as_values E)) d4 = Inr (AList.update ''te_test_data'' v5 d4)"
    by blast
  define d5 where "d5 = AList.update ''te_test_data'' v5 d4"
  have i5: "map_of d5 ''id'' = Some (PStr i)" by (simp add: d5_def AList.update_conv' i4)
  from attach_ok [OF i5] obtain v6 where
    a6: "attach ''te_latency_avg'' (Some F) d5 = Inr (AList.update ''te_latency_avg'' v6 d5)"
    by blast
  define d6 where "d6 = AList.update ''te_latency_avg'' v6 d5"
  have m: "merge_device A B C D E F device = Inr d6"
    unfolding merge_device_def bind_err_def
    by (simp add: a1 d1_def [symmetric] a2 d2_def [symmetric] a3 d3_def [symmetric] a4
        d4_def [symmetric] a5 d5_def [symmetric] a6 d6_def [symmetric])
  have k: "fst ` set d6 = fst ` set device \<union> set derived_fields"
    unfolding d6_def d5_def d4_def d3_def d2_def d1_def derived_fields_def
    by (simp only: AList.dom_update) auto
  have n: "map_of d6 ''name'' = map_of device ''name''"
    unfolding d6_def d5_def d4_def d3_def d2_def d1_def
    by (simp add: AList.update_conv')
  from m k n show ?thesis by blast
qed

lemma map_err_total:
  "\<forall>x \<in> set xs. \<exists>y. f x = Inr y \<Longrightarrow> \<exists>ys. map_err f xs = Inr ys \<and> length ys = length xs"
  by (induction xs) auto

lemma map_err_source:
  "map_err f xs = Inr ys \<Longrightarrow> y \<in> set ys \<Longrightarrow> \<exists>x \<in> set xs. f x = Inr y"
  by (induction xs arbitrary: ys) (auto split: sum.splits)

lemma map_err_names:
  "\<forall>d \<in> set ds. \<exists>n. map_of d ''name'' = Some (PStr n) \<Longrightarrow>
   \<exists>names. map_err (\<lambda>device. py_getitem_str (PDict device) ''name'') ds = Inr names
      \<and> list_all is_str names"
  by (induction ds) (auto simp: is_str_def)

lemma sorted_by_name_ok:
  assumes "\<forall>d \<in> set ds. \<exists>n. map_of d ''name'' = Some (PStr n)"
  shows "sorted_by_name ds = Inr (sort_key name_str ds)"
proof -
  from map_err_names [OF assms] obtain names where
    "map_err (\<lambda>device. py_getitem_str (PDict device) ''name'') ds = Inr names" "list_all is_str names"
    by blast
  moreover have "length ds \<le> 1 \<Longrightarrow> sort_key name_str ds = ds"
    by (cases ds) (auto simp: length_Suc_conv)
  ultimately show ?thesis by (simp add: sorted_by_name_def)
qed

lemma merge_and_sort_named:
  assumes ids: "\<forall>d \<in> set devices. \<exists>i. map_of d ''id'' = Some (PStr i)"
    and names: "\<forall>d \<in> set devices. \<exists>n. map_of d ''name'' = Some (PStr n)"
  shows "\<exists>out. merge_and_sort A B C D E F devices = Inr out
           \<and> sorted (map name_str out) \<and> length out = length devices
           \<and> (\<forall>d \<in> set out. set derived_fields \<subseteq> fst ` set d)"
proof -
  have "\<forall>d \<in> set devices. \<exists>d'. merge_device A B C D E F d = Inr d'"
  proof
    fix d assume "d \<in> set devices"
    with ids obtain i where "map_of d ''id'' = Some (PStr i)" by blast
    from merge_device_ok [OF this] show "\<exists>d'. merge_device A B C D E F d = Inr d'" by blast
  qed
  from map_err_total [OF this] obtain ds where
    ds: "map_err (merge_device A B C D E F) devices = Inr ds" and len: "length ds = length devices"
    by blast
  have each: "set derived_fields \<subseteq> fst ` set d' \<and> (\<exists>n. map_of d' ''name'' = Some (PStr n))"
    if "d' \<in> set ds" for d'
  proof -
    from map_err_source [OF ds that] obtain d where d: "d \<in> set devices"
      and m: "merge_device A B C D E F d = Inr d'" by blast
    from d ids obtain i where "map_of d ''id'' = Some (PStr i)" by blast
    from merge_device_ok [OF this, of A B C D E F] m
    have "fst ` set d' = fst ` set d \<union> set derived_fields" "map_of d' ''name'' = map_of d ''name''"
      by auto
    moreover from d names obtain n where "map_of d ''name'' = Some (PStr n)" by blast
    ultimately show ?thesis by auto
  qed
  have nm: "\<forall>d' \<in> set ds. \<exists>n. map_of d' ''name'' = Some (PStr n)" using each by blast
  have "merge_and_sort A B C D E F devices = Inr (sort_key name_str ds)"
    by (simp add: merge_and_sort_def bind_err_def ds sorted_by_name_ok [OF nm])
  moreover have "sorted (map name_str (sort_key name_str ds))" by (rule sorted_sort_key)
  moreover have "length (sort_key name_str ds) = length devices" by (simp add: len)
  moreover have "\<forall>d \<in> set (sort_key name_str ds). set derived_fields \<subseteq> fst ` set d"
    using each by simp
  ultimately show ?thesis by blast
qed

text \<open>
  C7 says that for every non-empty fetched device list the list handed to the page is
  sorted by name with the six derived fields present. \<open>get_ftd_devices\<close> gives a device
  without a \<open>name\<close> in the inventory the name \<open>None\<close>. With two devices of which one is
  named \<open>None\<close>, the loop attaches the fields, and \<open>sorted\<close> then raises \<open>TypeError\<close> when
  it compares the names: no list is handed on.
\<close>

theorem unnamed_device_breaks_sort:
  "merge_and_sort [] None None None [] []
     [[(''id'', PStr ''a''), (''name'', PNone)], [(''id'', PStr ''b''), (''name'', PStr ''ftd-2'')]]
   = Inl TypeError"
  by (simp add: merge_and_sort_def merge_device_def attach_def bind_err_def sorted_by_name_def
      is_str_def as_values_def)

end
